theory Spec2Isabelle
  imports Main "HOL-Library.AList"
begin

section \<open>Values of the manifest\<close>

text \<open>
  \<^verbatim>\<open>src/server/gameinfo.js\<close> works on the object that \<^verbatim>\<open>JSON.parse\<close> gives for a
  \<^verbatim>\<open>package.json\<close>. A JSON value is one of the six kinds below; an object is the list
  of its own properties, in insertion order.

  A number is represented by the text that JavaScript prints for it: 2 is
  \<open>JNum ''2''\<close>, 1.5 is \<open>JNum ''1.5''\<close> and 1e21 is \<open>JNum ''1e+21''\<close>. The code asks of
  a number only its type, whether it is falsy (0 and NaN) and this text, and the text
  determines the number.

  A property lookup \<^verbatim>\<open>obj[k]\<close> on a manifest gives \<open>None\<close> for JavaScript's
  \<^verbatim>\<open>undefined\<close>. A property holding \<^verbatim>\<open>undefined\<close> is identified with an absent
  property, so assigning \<^verbatim>\<open>undefined\<close> removes the key.
\<close>

datatype json =
    JNull
  | JBool bool
  | JNum string
  | JStr string
  | JArr "json list"
  | JObj "(string \<times> json) list"

type_synonym obj = "(string \<times> json) list"

definition getProp :: "obj \<Rightarrow> string \<Rightarrow> json option" where
  "getProp ob k = map_of ob k"

definition setProp :: "obj \<Rightarrow> string \<Rightarrow> json \<Rightarrow> obj" where
  "setProp ob k v = AList.update k v ob"

definition setUndefined :: "obj \<Rightarrow> string \<Rightarrow> obj" where
  "setUndefined ob k = AList.delete k ob"

text \<open>JavaScript's truthiness, as \<^verbatim>\<open>if (v)\<close> and \<^verbatim>\<open>!v\<close> test it.\<close>

fun truthy :: "json option \<Rightarrow> bool" where
  "truthy None = False"
| "truthy (Some JNull) = False"
| "truthy (Some (JBool b)) = b"
| "truthy (Some (JNum t)) = (t \<noteq> ''0'' \<and> t \<noteq> ''NaN'')"
| "truthy (Some (JStr s)) = (s \<noteq> [])"
| "truthy (Some (JArr xs)) = True"
| "truthy (Some (JObj kvs)) = True"

fun typeof :: "json option \<Rightarrow> string" where
  "typeof None = ''undefined''"
| "typeof (Some JNull) = ''object''"
| "typeof (Some (JBool b)) = ''boolean''"
| "typeof (Some (JNum t)) = ''number''"
| "typeof (Some (JStr s)) = ''string''"
| "typeof (Some (JArr xs)) = ''object''"
| "typeof (Some (JObj kvs)) = ''object''"

text \<open>
  Conversion to a string, as string concatenation, a property key and
  \<^verbatim>\<open>RegExp.prototype.test\<close> apply it; \<open>None\<close> is the \<^verbatim>\<open>TypeError\<close> that the
  conversion throws. An array prints its elements separated by commas, \<^verbatim>\<open>null\<close>
  elements as the empty string. An object prints as \<^verbatim>\<open>[object Object]\<close> through the
  \<^verbatim>\<open>toString\<close> it inherits; an object with an own key \<^verbatim>\<open>toString\<close> hides that method
  behind a value that cannot be called, and its conversion throws.
\<close>

fun join_with :: "string \<Rightarrow> string list \<Rightarrow> string" where
  "join_with sep [] = []"
| "join_with sep [x] = x"
| "join_with sep (x # y # ys) = x @ sep @ join_with sep (y # ys)"

fun sequence :: "'a option list \<Rightarrow> 'a list option" where
  "sequence [] = Some []"
| "sequence (x # xs) =
     (case x of
        None \<Rightarrow> None
      | Some y \<Rightarrow> (case sequence xs of None \<Rightarrow> None | Some ys \<Rightarrow> Some (y # ys)))"

fun toString :: "json \<Rightarrow> string option" where
  "toString JNull = Some ''null''"
| "toString (JBool b) = Some (if b then ''true'' else ''false'')"
| "toString (JNum t) = Some t"
| "toString (JStr s) = Some s"
| "toString (JArr xs) =
     (case sequence (map (\<lambda>x. if x = JNull then Some [] else toString x) xs) of
        None \<Rightarrow> None
      | Some texts \<Rightarrow> Some (join_with '','' texts))"
| "toString (JObj kvs) =
     (if map_of kvs ''toString'' \<noteq> None then None else Some ''[object Object]'')"

definition js_toString :: "json option \<Rightarrow> string option" where
  "js_toString v = (case v of None \<Rightarrow> Some ''undefined'' | Some j \<Rightarrow> toString j)"

section \<open>The default cascade\<close>

text \<open>
  Modelled from the spec: \<^verbatim>\<open>misc.copyProperties\<close> lives in \<^verbatim>\<open>src/server/misc.js\<close>,
  which is not among the sources. The spec (4.3) describes the call
  \<^verbatim>\<open>misc.copyProperties(defaults, obj, 1)\<close> as a shallow, non-overriding merge: each key
  of the defaults object is copied into the manifest only if the manifest does not
  already define that key.
\<close>

definition copyProperty :: "string \<times> json \<Rightarrow> obj \<Rightarrow> obj" where
  "copyProperty kv dst =
     (case getProp dst (fst kv) of
        None \<Rightarrow> setProp dst (fst kv) (snd kv)
      | Some old \<Rightarrow> dst)"

definition copyProperties :: "obj \<Rightarrow> obj \<Rightarrow> obj" where
  "copyProperties src dst = fold copyProperty src dst"

text \<open>
  \<^verbatim>\<open>applyDefaultProperties(obj, defaults)\<close>, lines 42-47: nothing happens when
  \<^verbatim>\<open>defaults\<close> is falsy. \<open>None\<close> is the falsy case; \<open>Some d\<close> is a truthy value
  whose own enumerable properties are \<open>d\<close>. The function mutates \<^verbatim>\<open>obj\<close>; the model
  returns the new state.
\<close>

definition applyDefaultProperties :: "obj \<Rightarrow> obj option \<Rightarrow> obj" where
  "applyDefaultProperties ob defaults =
     (case defaults of
        None \<Rightarrow> ob
      | Some d \<Rightarrow> copyProperties d ob)"

section \<open>Validators\<close>

text \<open>
  A validator returns normally or throws; \<open>Inl\<close> carries the text of what it threw.
  \<^verbatim>\<open>validGameId\<close>, lines 70-84: \<^verbatim>\<open>idRE = /^[a-zA-Z0-9-_]+$/\<close> is anchored at both
  ends: a character class, one or more times. \<^verbatim>\<open>idRE.test(id)\<close> converts \<^verbatim>\<open>id\<close> to a
  string first, so a number or a boolean is tested through its text, and an identifier
  that cannot be converted makes the validator throw a \<^verbatim>\<open>TypeError\<close> (its message is
  the engine's; the code only logs it).
\<close>

definition typeError_text :: string where
  "typeError_text = ''TypeError: Cannot convert object to primitive value''"

definition idRE_class :: "char \<Rightarrow> bool" where
  "idRE_class c \<longleftrightarrow>
     c \<in> set ''abcdefghijklmnopqrstuvwxyz'' \<or>
     c \<in> set ''ABCDEFGHIJKLMNOPQRSTUVWXYZ'' \<or>
     c \<in> set ''0123456789'' \<or>
     c = CHR ''-'' \<or> c = CHR ''_''"

definition idRE_test :: "string \<Rightarrow> bool" where
  "idRE_test s \<longleftrightarrow> s \<noteq> [] \<and> list_all idRE_class s"

text \<open>
  \<^verbatim>\<open>id.length > 60\<close>: the length of a string, the number of elements of an array.
  A number or a boolean has no \<^verbatim>\<open>length\<close>, and \<^verbatim>\<open>undefined > 60\<close> is false. An
  object never reaches this test: it prints as \<^verbatim>\<open>[object Object]\<close> or not at all, and
  \<^verbatim>\<open>idRE\<close> refuses that text.
\<close>

fun length_gt :: "json option \<Rightarrow> nat \<Rightarrow> bool" where
  "length_gt (Some (JStr s)) n = (length s > n)"
| "length_gt (Some (JArr xs)) n = (length xs > n)"
| "length_gt v n = False"

definition validGameId :: "json option \<Rightarrow> string + bool" where
  "validGameId gameId =
     (if \<not> truthy gameId then Inl ''gameId not defined''
      else (case js_toString gameId of
              None \<Rightarrow> Inl typeError_text
            | Some text \<Rightarrow>
                if \<not> idRE_test text
                  then Inl ''invalid characters in gameId only A-Z a-z 0-9 _ - allowed''
                else if length_gt gameId 60 then Inl ''gameId must be less than 60 characters''
                else Inr True))"
section \<open>Semantic versions\<close>

text \<open>
  Modelled from the spec: the \<^verbatim>\<open>semver\<close> package is an external library, not part of
  the sources. The spec (4.4, 6, glossary) asks of it "is a valid version string" and
  "the maximum version satisfying a compatible-range query", where the caret range of a
  version means: at least that version, with the same leading nonzero component.
  The model covers the core versions \<^verbatim>\<open>MAJOR.MINOR.PATCH\<close> (three decimal numbers without
  leading zeros). A string with a prefix, a pre-release tag or build metadata is outside
  the model and counts there as no version, although the library reads some of them;
  nothing below is claimed about manifests or settings that use such strings.
  \<^verbatim>\<open>semver.maxSatisfying\<close> keeps the versions that satisfy the range and returns the
  greatest of them, or null when there is none.
\<close>

type_synonym version = "nat \<times> nat \<times> nat"

fun split_on :: "char \<Rightarrow> string \<Rightarrow> string list" where
  "split_on d [] = [[]]"
| "split_on d (c # cs) =
     (if c = d then [] # split_on d cs
      else (case split_on d cs of
              [] \<Rightarrow> [[c]]
            | w # ws \<Rightarrow> (c # w) # ws))"

definition is_digit :: "char \<Rightarrow> bool" where
  "is_digit c \<longleftrightarrow> c \<in> set ''0123456789''"

definition digit_value :: "char \<Rightarrow> nat" where
  "digit_value c = of_char c - 48"

definition parse_numeric :: "string \<Rightarrow> nat option" where
  "parse_numeric s =
     (if s = [] \<or> \<not> list_all is_digit s \<or> (length s > 1 \<and> hd s = CHR ''0'') then None
      else Some (foldl (\<lambda>n c. 10 * n + digit_value c) 0 s))"

definition semver_parse :: "string \<Rightarrow> version option" where
  "semver_parse s =
     (case split_on CHR ''.'' s of
        [a, b, c] \<Rightarrow>
          (case (parse_numeric a, parse_numeric b, parse_numeric c) of
             (Some x, Some y, Some z) \<Rightarrow> Some (x, y, z)
           | _ \<Rightarrow> None)
      | _ \<Rightarrow> None)"

text \<open>\<^verbatim>\<open>semver.valid(v)\<close> is null for anything that is not a string.\<close>

definition semver_valid :: "json option \<Rightarrow> bool" where
  "semver_valid v = (case v of Some (JStr s) \<Rightarrow> semver_parse s \<noteq> None | _ \<Rightarrow> False)"

fun version_lt :: "version \<Rightarrow> version \<Rightarrow> bool" where
  "version_lt (a, b, c) (x, y, z) \<longleftrightarrow> a < x \<or> (a = x \<and> (b < y \<or> (b = y \<and> c < z)))"

fun caret_upper :: "version \<Rightarrow> version" where
  "caret_upper (major, minor, patch) =
     (if major > 0 then (major + 1, 0, 0)
      else if minor > 0 then (0, minor + 1, 0)
      else (0, 0, patch + 1))"

definition caret_test :: "version \<Rightarrow> version \<Rightarrow> bool" where
  "caret_test base v \<longleftrightarrow> \<not> version_lt v base \<and> version_lt v (caret_upper base)"

definition parse_caret :: "string \<Rightarrow> version option" where
  "parse_caret rng =
     (case rng of
        [] \<Rightarrow> None
      | c # rest \<Rightarrow> if c = CHR ''^'' then semver_parse rest else None)"

definition semver_satisfies :: "string \<Rightarrow> string \<Rightarrow> bool" where
  "semver_satisfies v rng =
     (case (semver_parse v, parse_caret rng) of
        (Some ver, Some base) \<Rightarrow> caret_test base ver
      | _ \<Rightarrow> False)"

definition semver_gt :: "string \<Rightarrow> string \<Rightarrow> bool" where
  "semver_gt a b =
     (case (semver_parse a, semver_parse b) of
        (Some va, Some vb) \<Rightarrow> version_lt vb va
      | _ \<Rightarrow> False)"

definition semver_max :: "string \<Rightarrow> string \<Rightarrow> string" where
  "semver_max w best = (if semver_gt w best then w else best)"

definition semver_maxSatisfying :: "string list \<Rightarrow> string \<Rightarrow> string option" where
  "semver_maxSatisfying versions rng =
     (case filter (\<lambda>v. semver_satisfies v rng) versions of
        [] \<Rightarrow> None
      | v # vs \<Rightarrow> Some (fold semver_max vs v))"

section \<open>Field validation\<close>

definition validSemver :: "json option \<Rightarrow> string + unit" where
  "validSemver v = (if \<not> semver_valid v then Inl ''not a valid semver'' else Inr ())"

definition validString :: "json option \<Rightarrow> string + unit" where
  "validString v = (if typeof v \<noteq> ''string'' then Inl ''not a string'' else Inr ())"

definition validNumber :: "json option \<Rightarrow> string + unit" where
  "validNumber v = (if typeof v \<noteq> ''number'' then Inl ''not a number'' else Inr ())"

text \<open>
  The table \<^verbatim>\<open>requiredFields\<close>, lines 122-128, in the order of its keys. The value a
  validator returns is not used, so the table keeps only whether it threw.
\<close>

definition thrown :: "string + 'a \<Rightarrow> string option" where
  "thrown r = (case r of Inl e \<Rightarrow> Some e | Inr x \<Rightarrow> None)"

definition requiredFields :: "(string \<times> (json option \<Rightarrow> string option)) list" where
  "requiredFields =
     [(''gameId'', \<lambda>v. thrown (validGameId v)),
      (''apiVersion'', \<lambda>v. thrown (validSemver v)),
      (''gameType'', \<lambda>v. thrown (validString v)),
      (''category'', \<lambda>v. thrown (validString v)),
      (''minPlayers'', \<lambda>v. thrown (validNumber v))]"

text \<open>
  \<^verbatim>\<open>validateObject\<close>, lines 130-139: the first validator that throws ends the loop, and
  the field name is put before its message.
\<close>

fun validateObject :: "obj \<Rightarrow> (string \<times> (json option \<Rightarrow> string option)) list \<Rightarrow> string + unit" where
  "validateObject ob [] = Inr ()"
| "validateObject ob ((fieldName, check) # validators) =
     (case check (getProp ob fieldName) of
        Some e \<Rightarrow> Inl (fieldName @ '': '' @ e)
      | None \<Rightarrow> validateObject ob validators)"

section \<open>Paths\<close>

text \<open>
  Modelled from the spec: \<^verbatim>\<open>path\<close> is a module of the JavaScript runtime, not part of
  the sources. The spec asks of it the directory containing a file (\<^verbatim>\<open>dirname\<close>) and
  the resolution of a path relative to a directory (\<^verbatim>\<open>join\<close>, \<^verbatim>\<open>normalize\<close>). The
  model is the POSIX flavour: \<^verbatim>\<open>/\<close> separates segments, empty and \<^verbatim>\<open>.\<close> segments
  vanish, \<^verbatim>\<open>..\<close> removes the segment before it, and an absolute path never climbs
  above the root.
\<close>

definition path_dirname :: "string \<Rightarrow> string" where
  "path_dirname p =
     (case p of
        [] \<Rightarrow> ''.''
      | c # body \<Rightarrow>
          (let hasRoot = (c = CHR ''/'');
               noTrail = dropWhile (\<lambda>x. x = CHR ''/'') (rev body);
               upto = dropWhile (\<lambda>x. x \<noteq> CHR ''/'') noTrail
           in if upto = [] then (if hasRoot then ''/'' else ''.'')
              else if hasRoot \<and> length upto = 1 then ''//''
              else c # rev (tl upto)))"

fun normalizeArray_scan :: "string list \<Rightarrow> string list \<times> nat" where
  "normalizeArray_scan [] = ([], 0)"
| "normalizeArray_scan (part # parts) =
     (case normalizeArray_scan parts of
        (kept, up) \<Rightarrow>
          if part = ''.'' then (kept, up)
          else if part = ''..'' then (kept, up + 1)
          else if up > 0 then (kept, up - 1)
          else (part # kept, up))"

definition normalizeArray :: "string list \<Rightarrow> bool \<Rightarrow> string list" where
  "normalizeArray parts allowAboveRoot =
     (case normalizeArray_scan parts of
        (kept, up) \<Rightarrow> if allowAboveRoot then replicate up ''..'' @ kept else kept)"

definition path_normalize :: "string \<Rightarrow> string" where
  "path_normalize p =
     (let isAbsolute = (p \<noteq> [] \<and> hd p = CHR ''/'');
          trailingSlash = (p \<noteq> [] \<and> last p = CHR ''/'');
          segments = filter (\<lambda>s. s \<noteq> []) (split_on CHR ''/'' p);
          joined = join_with ''/'' (normalizeArray segments (\<not> isAbsolute));
          dotted = (if joined = [] \<and> \<not> isAbsolute then ''.'' else joined);
          slashed = (if dotted \<noteq> [] \<and> trailingSlash then dotted @ ''/'' else dotted)
      in (if isAbsolute then ''/'' else []) @ slashed)"

definition path_join :: "string \<Rightarrow> string \<Rightarrow> string" where
  "path_join a b =
     path_normalize (join_with ''/'' (filter (\<lambda>s. s \<noteq> []) [a, b]))"

section \<open>Parsing a manifest\<close>

text \<open>
  The settings that \<^verbatim>\<open>config.getSettings()\<close> returns (lines 50-59). \<^verbatim>\<open>hftDefaults\<close> may
  be absent; \<^verbatim>\<open>hftGameTypeDefaults\<close> maps a game type to an object of defaults;
  \<^verbatim>\<open>apiVersionSettings\<close> maps a version string to a settings bundle. Each table is the
  list of the own properties of a plain object.
\<close>

record settings =
  hftDefaults :: "obj option"
  hftGameTypeDefaults :: "(string \<times> obj) list"
  apiVersionSettings :: obj

text \<open>
  The parsed \<^verbatim>\<open>package.json\<close>. Its \<^verbatim>\<open>happyFunTimes\<close> section is an object, or is
  missing (\<open>None\<close>); the other keys of the package are the extension of the record and
  are never touched. A \<^verbatim>\<open>package.json\<close> whose root is not an object (for the root
  \<^verbatim>\<open>null\<close>, line 217 throws) or whose section is not an object is outside the model.
\<close>

record packageInfo =
  happyFunTimes :: "obj option"

text \<open>
  How a call ends: it returns \<^verbatim>\<open>packageInfo\<close>, it returns \<^verbatim>\<open>undefined\<close> after
  logging (the manifest is skipped), or it throws.
\<close>

datatype fault = TypeError | BadPath string

datatype completion = Returned | Rejected | Thrown fault

text \<open>
  \<^verbatim>\<open>settings.hftGameTypeDefaults[key]\<close>, lines 226 and 236, indexes a plain object: it
  finds an own property, or else a member that every plain object inherits from
  \<^verbatim>\<open>Object.prototype\<close>, or else nothing (\<^verbatim>\<open>undefined\<close>). An inherited member is a
  function (for \<^verbatim>\<open>__proto__\<close>, the prototype itself): it is truthy, it is not
  \<^verbatim>\<open>undefined\<close>, and it has no enumerable property of its own to copy.
\<close>

datatype member = Own obj | Inherited | Absent

definition object_prototype_members :: "string list" where
  "object_prototype_members =
     [''constructor'', ''toString'', ''toLocaleString'', ''valueOf'', ''hasOwnProperty'',
      ''isPrototypeOf'', ''propertyIsEnumerable'', ''__proto__'', ''__defineGetter__'',
      ''__defineSetter__'', ''__lookupGetter__'', ''__lookupSetter__'']"

definition gameTypeDefaults :: "settings \<Rightarrow> string \<Rightarrow> member" where
  "gameTypeDefaults st key =
     (case map_of (hftGameTypeDefaults st) key of
        Some d \<Rightarrow> Own d
      | None \<Rightarrow> if key \<in> set object_prototype_members then Inherited else Absent)"

definition enumerable :: "member \<Rightarrow> obj option" where
  "enumerable m = (case m of Own d \<Rightarrow> Some d | Inherited \<Rightarrow> Some [] | Absent \<Rightarrow> None)"

text \<open>
  Lines 225-226. The key of the second lookup is \<^verbatim>\<open>hftInfo.gameType\<close> as line 225 left
  it, converted to a string; when that conversion throws, line 225 has already written
  the global defaults.
\<close>

definition applyDefaults :: "settings \<Rightarrow> obj \<Rightarrow> fault option \<times> obj" where
  "applyDefaults st hftInfo =
     (let withGlobal = applyDefaultProperties hftInfo (hftDefaults st)
      in case js_toString (getProp withGlobal ''gameType'') of
           None \<Rightarrow> (Some TypeError, withGlobal)
         | Some key \<Rightarrow>
             (None, applyDefaultProperties withGlobal (enumerable (gameTypeDefaults st key))))"

text \<open>
  Lines 252-261. \<^verbatim>\<open>semver.maxSatisfying\<close> gives a version of the list or null, and a
  version is never the empty string, so \<^verbatim>\<open>!bestVersion\<close> is the null case.
\<close>

definition assignVersionSettings :: "settings \<Rightarrow> string \<Rightarrow> obj \<Rightarrow> obj" where
  "assignVersionSettings st bestVersion hftInfo =
     (case map_of (apiVersionSettings st) bestVersion of
        None \<Rightarrow> setUndefined hftInfo ''versionSettings''
      | Some bundle \<Rightarrow> setProp hftInfo ''versionSettings'' bundle)"

definition resolveVersion :: "settings \<Rightarrow> obj \<Rightarrow> fault option \<times> obj" where
  "resolveVersion st hftInfo =
     (case js_toString (getProp hftInfo ''apiVersion'') of
        None \<Rightarrow> (Some TypeError, hftInfo)
      | Some apiVersion \<Rightarrow>
          (let availableVersions = map fst (apiVersionSettings st);
               need = ''^'' @ apiVersion
           in case semver_maxSatisfying availableVersions need of
                Some bestVersion \<Rightarrow> (None, assignVersionSettings st bestVersion hftInfo)
              | None \<Rightarrow>
                  (None,
                   assignVersionSettings st ''0.0.0-unsupportedApiVersion''
                     (setProp hftInfo ''needNewHFT'' (JBool True)))))"

text \<open>
  Lines 286-290, for one name and for both. The concatenation converts
  \<^verbatim>\<open>hftInfo.gameId\<close> and \<^verbatim>\<open>hftInfo[name]\<close> to strings and throws when one of them
  cannot be converted; nothing is assigned then.
\<close>

definition fixUrl :: "string \<Rightarrow> obj \<Rightarrow> fault option \<times> obj" where
  "fixUrl name hftInfo =
     (if truthy (getProp hftInfo name)
      then (case js_toString (getProp hftInfo ''gameId'') of
              None \<Rightarrow> (Some TypeError, hftInfo)
            | Some gameId \<Rightarrow>
                (case js_toString (getProp hftInfo name) of
                   None \<Rightarrow> (Some TypeError, hftInfo)
                 | Some url \<Rightarrow>
                     (None, setProp hftInfo name (JStr (''/games/'' @ gameId @ ''/'' @ url)))))
      else (None, hftInfo))"

definition fixUrls :: "obj \<Rightarrow> fault option \<times> obj" where
  "fixUrls hftInfo =
     (case fixUrl ''gameUrl'' hftInfo of
        (Some f, h) \<Rightarrow> (Some f, h)
      | (None, h) \<Rightarrow> fixUrl ''screenshotUrl'' h)"

text \<open>
  Lines 292-301. \<^verbatim>\<open>path.join\<close> throws a \<^verbatim>\<open>TypeError\<close> when an argument is not a
  string. The manifest has its \<^verbatim>\<open>gameExecutable\<close> rewritten before the test that may
  throw. \<^verbatim>\<open>fullPath.substring(0, gameBasePath.length)\<close> is \<open>take\<close>.
\<close>

definition fixExecutable :: "string \<Rightarrow> obj \<Rightarrow> fault option \<times> obj" where
  "fixExecutable gameBasePath hftInfo =
     (if truthy (getProp hftInfo ''gameExecutable'')
      then (case getProp hftInfo ''gameExecutable'' of
              Some (JStr exe) \<Rightarrow>
                (let localPath = path_join gameBasePath exe;
                     rewritten = setProp hftInfo ''gameExecutable'' (JStr localPath);
                     fullPath = path_normalize localPath
                 in if gameBasePath \<noteq> take (length gameBasePath) fullPath
                    then (Some (BadPath (''bad path for game executable: '' @ fullPath)), rewritten)
                    else (None, rewritten))
            | _ \<Rightarrow> (Some TypeError, hftInfo))
      else (None, hftInfo))"

text \<open>
  \<^verbatim>\<open>parseGameInfo(contents, filePath)\<close>, lines 214-310, after \<^verbatim>\<open>JSON.parse(contents)\<close>
  has succeeded. The code mutates the parsed object in place, so the model returns, with
  the way the call ends, the state of that object when it ends; on \<open>Returned\<close> this
  state is the value returned. Everything thrown inside the outer \<^verbatim>\<open>try\<close> is thrown
  again by line 307. Console output is not modelled.
\<close>

definition parseGameInfo ::
  "settings \<Rightarrow> 'a packageInfo_scheme \<Rightarrow> string \<Rightarrow> completion \<times> 'a packageInfo_scheme" where
  "parseGameInfo st packageInfo filePath =
     (case happyFunTimes packageInfo of
        None \<Rightarrow> (Rejected, packageInfo)
      | Some hftInfo \<Rightarrow>
          (let gameBasePath = path_dirname filePath
           in case applyDefaults st hftInfo of
                (Some f, h) \<Rightarrow> (Thrown f, packageInfo\<lparr>happyFunTimes := Some h\<rparr>)
              | (None, defaulted) \<Rightarrow>
                  if validateObject defaulted requiredFields \<noteq> Inr ()
                  then (Rejected, packageInfo\<lparr>happyFunTimes := Some defaulted\<rparr>)
                  else
                    (case js_toString (getProp defaulted ''gameType'') of
                       None \<Rightarrow> (Thrown TypeError, packageInfo\<lparr>happyFunTimes := Some defaulted\<rparr>)
                     | Some key \<Rightarrow>
                         if gameTypeDefaults st key = Absent
                         then (Rejected, packageInfo\<lparr>happyFunTimes := Some defaulted\<rparr>)
                         else
                           (case resolveVersion st defaulted of
                              (Some f, h) \<Rightarrow> (Thrown f, packageInfo\<lparr>happyFunTimes := Some h\<rparr>)
                            | (None, versioned) \<Rightarrow>
                                if getProp versioned ''versionSettings'' = None
                                then (Rejected, packageInfo\<lparr>happyFunTimes := Some versioned\<rparr>)
                                else if \<not> truthy (getProp versioned ''gameType'')
                                then (Rejected, packageInfo\<lparr>happyFunTimes := Some versioned\<rparr>)
                                else
                                  (case fixUrls versioned of
                                     (Some f, h) \<Rightarrow>
                                       (Thrown f, packageInfo\<lparr>happyFunTimes := Some h\<rparr>)
                                   | (None, fixed) \<Rightarrow>
                                       (case fixExecutable gameBasePath fixed of
                                          (Some f, h) \<Rightarrow>
                                            (Thrown f, packageInfo\<lparr>happyFunTimes := Some h\<rparr>)
                                        | (None, h) \<Rightarrow>
                                            (Returned,
                                             packageInfo\<lparr>happyFunTimes :=
                                               Some (setProp h ''basePath''
                                                       (JStr gameBasePath))\<rparr>)))))))"
section \<open>Notions of the specification\<close>



text \<open>
  A path lies within a directory when, both read from the same place, the path leads to
  the directory or below it: both are absolute or both relative, the segments of the
  directory (empty and \<^verbatim>\<open>.\<close> segments dropped, \<^verbatim>\<open>..\<close> resolved) begin the segments of
  the path, and the rest of the path does not climb out again. The directory may be
  written in any form: \<^verbatim>\<open>bin/x\<close> lies within \<^verbatim>\<open>.\<close>, and \<^verbatim>\<open>/games/foo/x\<close> within
  \<^verbatim>\<open>/games//foo\<close>.
\<close>

definition path_isAbsolute :: "string \<Rightarrow> bool" where
  "path_isAbsolute p \<longleftrightarrow> p \<noteq> [] \<and> hd p = CHR ''/''"

definition path_segments :: "string \<Rightarrow> string list" where
  "path_segments p =
     normalizeArray (filter (\<lambda>s. s \<noteq> []) (split_on CHR ''/'' p)) (\<not> path_isAbsolute p)"

definition lies_within :: "string \<Rightarrow> string \<Rightarrow> bool" where
  "lies_within dir p \<longleftrightarrow>
     path_isAbsolute dir = path_isAbsolute p \<and>
     take (length (path_segments dir)) (path_segments p) = path_segments dir \<and>
     (case drop (length (path_segments dir)) (path_segments p) of
        [] \<Rightarrow> True
      | s # rest \<Rightarrow> s \<noteq> ''..'')"

text \<open>
  A directory is written in normalized form when \<^verbatim>\<open>path.normalize\<close> leaves it unchanged,
  it names more than the current directory, and it has no separator at its end (the root
  apart).
\<close>

definition normalized_directory :: "string \<Rightarrow> bool" where
  "normalized_directory dir \<longleftrightarrow>
     path_normalize dir = dir \<and> dir \<noteq> ''.'' \<and> (dir = ''/'' \<or> last dir \<noteq> CHR ''/'')"

text \<open>
  The five required fields of a manifest all pass their validators (the table of 4.2).
\<close>

definition required_fields_valid :: "obj \<Rightarrow> bool" where
  "required_fields_valid m \<longleftrightarrow>
     validGameId (getProp m ''gameId'') = Inr True \<and>
     semver_valid (getProp m ''apiVersion'') \<and>
     typeof (getProp m ''gameType'') = ''string'' \<and>
     typeof (getProp m ''category'') = ''string'' \<and>
     typeof (getProp m ''minPlayers'') = ''number''"

text \<open>The manifest as the defaults step of lines 225-226 leaves it.\<close>

definition defaulted :: "settings \<Rightarrow> obj \<Rightarrow> obj" where
  "defaulted st hftInfo = snd (applyDefaults st hftInfo)"

text \<open>
  The caret range that a manifest's \<^verbatim>\<open>apiVersion\<close> asks for, when it is a string (no
  range otherwise).
\<close>

definition caret_range :: "obj \<Rightarrow> string" where
  "caret_range m =
     (case getProp m ''apiVersion'' of
        Some (JStr apiVersion) \<Rightarrow> ''^'' @ apiVersion
      | _ \<Rightarrow> [])"

text \<open>
  The executable of a manifest, if any, stays inside a directory: the manifest names no
  executable (the field is absent or falsy), or the field is a string whose resolved path
  lies within the directory.
\<close>

definition executable_stays_inside :: "string \<Rightarrow> obj \<Rightarrow> bool" where
  "executable_stays_inside dir m =
     (case getProp m ''gameExecutable'' of
        None \<Rightarrow> True
      | Some (JStr exe) \<Rightarrow> exe = [] \<or> lies_within dir (path_normalize (path_join dir exe))
      | Some v \<Rightarrow> \<not> truthy (Some v))"

section \<open>Example inputs\<close>

text \<open>
  The settings and manifests of the specification's examples (section 8): global
  defaults \<^verbatim>\<open>{gameType: "html"}\<close>, defaults \<^verbatim>\<open>{minPlayers: 2}\<close> for \<^verbatim>\<open>html\<close>, and
  the API versions 1.0.0, 1.2.0 and 2.0.0.
\<close>

definition example_settings :: settings where
  "example_settings =
     \<lparr>hftDefaults = Some [(''gameType'', JStr ''html'')],
      hftGameTypeDefaults = [(''html'', [(''minPlayers'', JNum ''2'')])],
      apiVersionSettings =
        [(''1.0.0'', JStr ''settings-1.0.0''),
         (''1.2.0'', JStr ''settings-1.2.0''),
         (''2.0.0'', JStr ''settings-2.0.0'')]\<rparr>"

definition example_manifest :: obj where
  "example_manifest =
     [(''gameId'', JStr ''jumpjump''),
      (''apiVersion'', JStr ''1.0.0''),
      (''category'', JStr ''game'')]"

definition example_package :: "obj \<Rightarrow> packageInfo" where
  "example_package m = \<lparr>happyFunTimes = Some m\<rparr>"

text \<open>Settings that also hold a bundle under the fallback key of line 257.\<close>

definition fallback_settings :: settings where
  "fallback_settings =
     example_settings\<lparr>apiVersionSettings :=
       apiVersionSettings example_settings @
         [(''0.0.0-unsupportedApiVersion'', JStr ''settings-unsupported'')]\<rparr>"

text \<open>Settings whose table of game types has the empty string as a key.\<close>

definition empty_type_settings :: settings where
  "empty_type_settings =
     example_settings\<lparr>hftGameTypeDefaults := [([], [(''minPlayers'', JNum ''2'')])]\<rparr>"
section \<open>Properties of objects and of the default cascade\<close>

lemma getProp_Nil: "getProp [] k = None"
  by (simp add: getProp_def)

lemma getProp_Cons:
  "getProp (kv # ob) k = (if k = fst kv then Some (snd kv) else getProp ob k)"
  by (cases kv) (simp add: getProp_def)

lemma getProp_setProp:
  "getProp (setProp ob k v) k' = (if k' = k then Some v else getProp ob k')"
  by (simp add: getProp_def setProp_def update_conv')

lemma getProp_setUndefined:
  "getProp (setUndefined ob k) k' = (if k' = k then None else getProp ob k')"
  by (simp add: getProp_def setUndefined_def delete_conv')

lemma getProp_copyProperty:
  "getProp (copyProperty kv dst) k =
     (case getProp dst k of
        Some v \<Rightarrow> Some v
      | None \<Rightarrow> if k = fst kv then Some (snd kv) else None)"
  by (auto simp: copyProperty_def getProp_setProp split: option.splits)

lemma getProp_copyProperties:
  "getProp (copyProperties src dst) k =
     (case getProp dst k of Some v \<Rightarrow> Some v | None \<Rightarrow> getProp src k)"
  unfolding copyProperties_def
proof (induction src arbitrary: dst)
  case Nil
  show ?case by (simp add: getProp_Nil split: option.splits)
next
  case (Cons kv src)
  show ?case
    by (simp add: Cons.IH getProp_copyProperty getProp_Cons split: option.splits)
qed

lemma getProp_applyDefaultProperties:
  "getProp (applyDefaultProperties ob defaults) k =
     (case getProp ob k of
        Some v \<Rightarrow> Some v
      | None \<Rightarrow> (case defaults of None \<Rightarrow> None | Some d \<Rightarrow> getProp d k))"
  by (simp add: applyDefaultProperties_def getProp_copyProperties split: option.splits)

lemma enumerable_Absent: "enumerable m = None \<longleftrightarrow> m = Absent"
  by (cases m) (simp_all add: enumerable_def)

lemma applyDefaults_unfold:
  "applyDefaults st hftInfo =
     (case js_toString (getProp (applyDefaultProperties hftInfo (hftDefaults st)) ''gameType'') of
        None \<Rightarrow> (Some TypeError, applyDefaultProperties hftInfo (hftDefaults st))
      | Some key \<Rightarrow>
          (None, applyDefaultProperties (applyDefaultProperties hftInfo (hftDefaults st))
                   (enumerable (gameTypeDefaults st key))))"
  by (simp add: applyDefaults_def Let_def)

lemma getProp_defaulted_keep:
  "getProp hftInfo k = Some v \<Longrightarrow> getProp (defaulted st hftInfo) k = Some v"
  by (simp add: defaulted_def applyDefaults_unfold getProp_applyDefaultProperties
      split: option.splits)


text \<open>
  C3. The default cascade is non-overriding. For every manifest \<open>ob\<close>, every defaults
  table and every key: a key the manifest defines keeps the manifest's value after
  \<^verbatim>\<open>applyDefaultProperties\<close>, and a key it lacks gets the value of the defaults (if
  any). The same holds after both steps of lines 225-226. The manifest \<^verbatim>\<open>{a:1}\<close> merged
  with the defaults \<^verbatim>\<open>{a:2, b:3}\<close> gives \<^verbatim>\<open>{a:1, b:3}\<close>.
\<close>

theorem applyDefaultProperties_non_overriding:
  "(getProp ob k = Some v \<longrightarrow> getProp (applyDefaultProperties ob defaults) k = Some v) \<and>
   (getProp ob k = None \<longrightarrow>
      getProp (applyDefaultProperties ob defaults) k =
        (case defaults of None \<Rightarrow> None | Some d \<Rightarrow> getProp d k)) \<and>
   (getProp ob k = Some v \<longrightarrow> getProp (defaulted st ob) k = Some v) \<and>
   applyDefaultProperties [(''a'', JNum ''1'')] (Some [(''a'', JNum ''2''), (''b'', JNum ''3'')])
     = [(''a'', JNum ''1''), (''b'', JNum ''3'')]"
proof -
  have "applyDefaultProperties [(''a'', JNum ''1'')]
      (Some [(''a'', JNum ''2''), (''b'', JNum ''3'')])
     = [(''a'', JNum ''1''), (''b'', JNum ''3'')]"
    by (simp add: applyDefaultProperties_def copyProperties_def copyProperty_def
        getProp_def setProp_def)
  then show ?thesis
    by (simp add: getProp_applyDefaultProperties getProp_defaulted_keep)
qed

theorem applyDefaultProperties_non_overriding_witness:
  "getProp example_manifest ''gameId'' = Some (JStr ''jumpjump'') \<and>
   getProp (applyDefaultProperties example_manifest (hftDefaults example_settings)) ''gameId''
     = Some (JStr ''jumpjump'') \<and>
   getProp example_manifest ''gameType'' = None \<and>
   getProp (applyDefaultProperties example_manifest (hftDefaults example_settings)) ''gameType''
     = Some (JStr ''html'')"
proof -
  have a: "getProp example_manifest ''gameId'' = Some (JStr ''jumpjump'')"
    by (simp add: example_manifest_def getProp_def)
  have b: "getProp example_manifest ''gameType'' = None"
    by (simp add: example_manifest_def getProp_def)
  have c: "hftDefaults example_settings = Some [(''gameType'', JStr ''html'')]"
    by (simp add: example_settings_def)
  from a b c
    applyDefaultProperties_non_overriding
      [of example_manifest "''gameId''" "JStr ''jumpjump''" "hftDefaults example_settings"]
    applyDefaultProperties_non_overriding
      [of example_manifest "''gameType''" "JStr ''html''" "hftDefaults example_settings"]
  show ?thesis by (simp add: getProp_def)
qed

section \<open>Properties of the version model\<close>

lemma version_lt_irrefl: "\<not> version_lt a a"
  by (cases a) auto

lemma version_lt_asym: "version_lt a b \<Longrightarrow> \<not> version_lt b a"
  by (cases a; cases b) auto

lemma version_le_trans: "\<not> version_lt b a \<Longrightarrow> \<not> version_lt c b \<Longrightarrow> \<not> version_lt c a"
  by (cases a; cases b; cases c) auto

lemma semver_gt_Some:
  "semver_parse a = Some va \<Longrightarrow> semver_parse b = Some vb \<Longrightarrow>
   semver_gt a b = version_lt vb va"
  by (simp add: semver_gt_def)

lemma semver_ge_trans:
  assumes "semver_parse a \<noteq> None" "semver_parse b \<noteq> None" "semver_parse c \<noteq> None"
    and "\<not> semver_gt a b" "\<not> semver_gt b c"
  shows "\<not> semver_gt a c"
proof -
  from assms(1-3) obtain va vb vc where
    p: "semver_parse a = Some va" "semver_parse b = Some vb" "semver_parse c = Some vc"
    by blast
  have "\<not> version_lt vb va" using assms(4) by (simp add: semver_gt_Some[OF p(1) p(2)])
  moreover have "\<not> version_lt vc vb" using assms(5) by (simp add: semver_gt_Some[OF p(2) p(3)])
  ultimately have "\<not> version_lt vc va" by (rule version_le_trans)
  then show ?thesis by (simp add: semver_gt_Some[OF p(1) p(3)])
qed

lemma semver_max_cases: "semver_max a v = a \<or> semver_max a v = v"
  by (simp add: semver_max_def)

lemma semver_max_ge_right: "semver_parse v \<noteq> None \<Longrightarrow> \<not> semver_gt v (semver_max a v)"
proof (cases "semver_gt a v")
  case True
  then obtain va vv where p: "semver_parse a = Some va" "semver_parse v = Some vv"
    by (auto simp: semver_gt_def split: option.splits)
  with True have "version_lt vv va" by (simp add: semver_gt_Some[OF p])
  then have "\<not> version_lt va vv" by (rule version_lt_asym)
  then have "\<not> semver_gt v a" by (simp add: semver_gt_Some[OF p(2) p(1)])
  with True show ?thesis by (simp add: semver_max_def)
next
  case False
  assume "semver_parse v \<noteq> None"
  then obtain vv where p: "semver_parse v = Some vv" by blast
  have "\<not> semver_gt v v" by (simp add: semver_gt_Some[OF p p] version_lt_irrefl)
  with False show ?thesis by (simp add: semver_max_def)
qed

lemma semver_max_ge_left: "semver_parse a \<noteq> None \<Longrightarrow> \<not> semver_gt a (semver_max a v)"
proof (cases "semver_gt a v")
  case True
  assume "semver_parse a \<noteq> None"
  then obtain va where p: "semver_parse a = Some va" by blast
  have "\<not> semver_gt a a" by (simp add: semver_gt_Some[OF p p] version_lt_irrefl)
  with True show ?thesis by (simp add: semver_max_def)
next
  case False
  then show ?thesis by (simp add: semver_max_def)
qed

lemma fold_semver_max_mem: "fold semver_max vs v \<in> set (v # vs)"
proof (induction vs arbitrary: v)
  case Nil
  show ?case by simp
next
  case (Cons a vs)
  have "fold semver_max vs (semver_max a v) \<in> set (semver_max a v # vs)"
    by (rule Cons.IH)
  moreover have "semver_max a v = a \<or> semver_max a v = v"
    by (rule semver_max_cases)
  ultimately show ?case by auto
qed

lemma fold_semver_max_parses:
  assumes "semver_parse v \<noteq> None" and "\<forall>x\<in>set vs. semver_parse x \<noteq> None"
  shows "semver_parse (fold semver_max vs v) \<noteq> None"
proof -
  have "fold semver_max vs v \<in> set (v # vs)" by (rule fold_semver_max_mem)
  then show ?thesis using assms by auto
qed

lemma fold_semver_max_ge_init:
  assumes "semver_parse v \<noteq> None" and "\<forall>x\<in>set vs. semver_parse x \<noteq> None"
  shows "\<not> semver_gt v (fold semver_max vs v)"
  using assms
proof (induction vs arbitrary: v)
  case Nil
  then obtain vv where p: "semver_parse v = Some vv" by blast
  show ?case by (simp add: semver_gt_Some[OF p p] version_lt_irrefl)
next
  case (Cons a vs)
  let ?m = "semver_max a v"
  have pa: "semver_parse a \<noteq> None" and pvs: "\<forall>x\<in>set vs. semver_parse x \<noteq> None"
    using Cons.prems(2) by simp_all
  have pm: "semver_parse ?m \<noteq> None"
    using semver_max_cases[of a v] pa Cons.prems(1) by auto
  have pr: "semver_parse (fold semver_max vs ?m) \<noteq> None"
    by (rule fold_semver_max_parses[OF pm pvs])
  have s1: "\<not> semver_gt v ?m" by (rule semver_max_ge_right[OF Cons.prems(1)])
  have s2: "\<not> semver_gt ?m (fold semver_max vs ?m)" by (rule Cons.IH[OF pm pvs])
  have "\<not> semver_gt v (fold semver_max vs ?m)"
    by (rule semver_ge_trans[OF Cons.prems(1) pm pr s1 s2])
  then show ?case by simp
qed

lemma fold_semver_max_upper:
  assumes "semver_parse v \<noteq> None" and "\<forall>x\<in>set vs. semver_parse x \<noteq> None"
    and "x \<in> set vs"
  shows "\<not> semver_gt x (fold semver_max vs v)"
  using assms
proof (induction vs arbitrary: v)
  case Nil
  then show ?case by simp
next
  case (Cons a vs)
  let ?m = "semver_max a v"
  have pa: "semver_parse a \<noteq> None" and pvs: "\<forall>x\<in>set vs. semver_parse x \<noteq> None"
    using Cons.prems(2) by simp_all
  have pm: "semver_parse ?m \<noteq> None"
    using semver_max_cases[of a v] pa Cons.prems(1) by auto
  have pr: "semver_parse (fold semver_max vs ?m) \<noteq> None"
    by (rule fold_semver_max_parses[OF pm pvs])
  have "\<not> semver_gt x (fold semver_max vs ?m)"
  proof (cases "x = a")
    case True
    have s1: "\<not> semver_gt a ?m" by (rule semver_max_ge_left[OF pa])
    have s2: "\<not> semver_gt ?m (fold semver_max vs ?m)"
      by (rule fold_semver_max_ge_init[OF pm pvs])
    show ?thesis unfolding True by (rule semver_ge_trans[OF pa pm pr s1 s2])
  next
    case False
    then have "x \<in> set vs" using Cons.prems(3) by simp
    then show ?thesis by (rule Cons.IH[OF pm pvs])
  qed
  then show ?case by simp
qed

lemma satisfies_parses: "semver_satisfies v rng \<Longrightarrow> semver_parse v \<noteq> None"
  by (auto simp: semver_satisfies_def split: option.splits)

lemma maxSatisfying_None:
  "semver_maxSatisfying versions rng = None \<longleftrightarrow> (\<forall>v\<in>set versions. \<not> semver_satisfies v rng)"
proof -
  have "semver_maxSatisfying versions rng = None \<longleftrightarrow>
        filter (\<lambda>v. semver_satisfies v rng) versions = []"
    by (simp add: semver_maxSatisfying_def split: list.splits)
  then show ?thesis by (simp add: filter_empty_conv)
qed

lemma maxSatisfying_Some:
  assumes "semver_maxSatisfying versions rng = Some best"
  shows "best \<in> set versions \<and> semver_satisfies best rng \<and>
         (\<forall>v\<in>set versions. semver_satisfies v rng \<longrightarrow> \<not> semver_gt v best)"
proof -
  obtain v vs where fl: "filter (\<lambda>v. semver_satisfies v rng) versions = v # vs"
    and best: "best = fold semver_max vs v"
    using assms by (auto simp: semver_maxSatisfying_def split: list.splits)
  have st: "set (v # vs) = {x \<in> set versions. semver_satisfies x rng}"
    using fl by (metis set_filter)
  have sat: "semver_satisfies x rng" if "x \<in> set (v # vs)" for x
    using that st by blast
  have pv: "semver_parse v \<noteq> None"
    by (rule satisfies_parses[OF sat]) simp
  have pvs: "\<forall>x\<in>set vs. semver_parse x \<noteq> None"
  proof
    fix x assume "x \<in> set vs"
    then have "x \<in> set (v # vs)" by simp
    then show "semver_parse x \<noteq> None" by (rule satisfies_parses[OF sat])
  qed
  have mem: "best \<in> set (v # vs)"
    unfolding best by (rule fold_semver_max_mem)
  have up: "\<not> semver_gt x best" if "x \<in> set (v # vs)" for x
  proof (cases "x = v")
    case True
    show ?thesis unfolding True best by (rule fold_semver_max_ge_init[OF pv pvs])
  next
    case False
    then have "x \<in> set vs" using that by simp
    then show ?thesis unfolding best by (rule fold_semver_max_upper[OF pv pvs])
  qed
  show ?thesis using mem up st by blast
qed

section \<open>Properties of the steps of parseGameInfo\<close>

lemma validateObject_requiredFields:
  "validateObject m requiredFields = Inr () \<longleftrightarrow> required_fields_valid m"
  by (auto simp: requiredFields_def required_fields_valid_def thrown_def validSemver_def
      validString_def validNumber_def validGameId_def split: sum.splits option.splits if_splits)

lemma typeof_string: "typeof v = ''string'' \<Longrightarrow> \<exists>s. v = Some (JStr s)"
  by (cases v rule: typeof.cases) simp_all

lemma semver_valid_string: "semver_valid v \<Longrightarrow> \<exists>s. v = Some (JStr s)"
  by (auto simp: semver_valid_def split: option.splits json.splits)

lemma js_toString_JStr: "js_toString (Some (JStr s)) = Some s"
  by (simp add: js_toString_def)

lemma valid_gameType:
  "required_fields_valid m \<Longrightarrow> \<exists>g. getProp m ''gameType'' = Some (JStr g)"
  by (simp add: required_fields_valid_def typeof_string)

lemma valid_apiVersion:
  "required_fields_valid m \<Longrightarrow> \<exists>a. getProp m ''apiVersion'' = Some (JStr a)"
  by (simp add: required_fields_valid_def semver_valid_string)

lemma valid_defaults_no_throw:
  assumes "required_fields_valid (defaulted st h)"
  shows "applyDefaults st h = (None, defaulted st h)"
proof (cases "js_toString (getProp (applyDefaultProperties h (hftDefaults st)) ''gameType'')")
  case None
  then have d: "defaulted st h = applyDefaultProperties h (hftDefaults st)"
    by (simp add: defaulted_def applyDefaults_unfold)
  from valid_gameType[OF assms] obtain g where "getProp (defaulted st h) ''gameType'' = Some (JStr g)"
    by blast
  then have "js_toString (getProp (applyDefaultProperties h (hftDefaults st)) ''gameType'') = Some g"
    by (simp add: d js_toString_JStr)
  with None show ?thesis by simp
next
  case (Some key)
  then show ?thesis by (simp add: defaulted_def applyDefaults_unfold)
qed

lemma getProp_fixUrl: "k \<noteq> name \<Longrightarrow> getProp (snd (fixUrl name h)) k = getProp h k"
  by (simp add: fixUrl_def getProp_setProp split: option.splits)

lemma getProp_fixUrls:
  "k \<noteq> ''gameUrl'' \<Longrightarrow> k \<noteq> ''screenshotUrl'' \<Longrightarrow> getProp (snd (fixUrls h)) k = getProp h k"
proof -
  assume k: "k \<noteq> ''gameUrl''" "k \<noteq> ''screenshotUrl''"
  obtain f x where fx: "fixUrl ''gameUrl'' h = (f, x)" by (cases "fixUrl ''gameUrl'' h")
  have x: "getProp x k = getProp h k"
    using getProp_fixUrl[OF k(1), of h] fx by simp
  show ?thesis
  proof (cases f)
    case None
    then have "snd (fixUrls h) = snd (fixUrl ''screenshotUrl'' x)"
      by (simp add: fixUrls_def fx)
    then show ?thesis using getProp_fixUrl[OF k(2), of x] x by simp
  next
    case (Some e)
    then have "snd (fixUrls h) = x" by (simp add: fixUrls_def fx)
    then show ?thesis using x by simp
  qed
qed

lemma getProp_fixExecutable:
  "k \<noteq> ''gameExecutable'' \<Longrightarrow> getProp (snd (fixExecutable b h)) k = getProp h k"
  by (simp add: fixExecutable_def Let_def getProp_setProp split: option.splits json.splits)

lemma getProp_assignVersionSettings:
  "getProp (assignVersionSettings st bv h) k =
     (if k = ''versionSettings'' then map_of (apiVersionSettings st) bv else getProp h k)"
  by (simp add: assignVersionSettings_def getProp_setProp getProp_setUndefined split: option.splits)

lemma resolveVersion_Some:
  "getProp h ''apiVersion'' = Some (JStr a) \<Longrightarrow>
   semver_maxSatisfying (map fst (apiVersionSettings st)) (caret_range h) = Some best \<Longrightarrow>
   resolveVersion st h = (None, assignVersionSettings st best h)"
  by (simp add: resolveVersion_def caret_range_def js_toString_JStr)

lemma resolveVersion_None:
  "getProp h ''apiVersion'' = Some (JStr a) \<Longrightarrow>
   semver_maxSatisfying (map fst (apiVersionSettings st)) (caret_range h) = None \<Longrightarrow>
   resolveVersion st h =
     (None, assignVersionSettings st ''0.0.0-unsupportedApiVersion''
              (setProp h ''needNewHFT'' (JBool True)))"
  by (simp add: resolveVersion_def caret_range_def js_toString_JStr)

lemma resolveVersion_no_throw:
  "getProp h ''apiVersion'' = Some (JStr a) \<Longrightarrow> fst (resolveVersion st h) = None"
  by (simp add: resolveVersion_def js_toString_JStr Let_def split: option.splits)

lemma getProp_resolveVersion:
  "k \<noteq> ''versionSettings'' \<Longrightarrow> k \<noteq> ''needNewHFT'' \<Longrightarrow>
   getProp (snd (resolveVersion st h)) k = getProp h k"
  by (simp add: resolveVersion_def Let_def getProp_assignVersionSettings getProp_setProp
      split: option.splits)

text \<open>The ways \<^verbatim>\<open>parseGameInfo\<close> ends, step by step.\<close>

lemma parseGameInfo_missing:
  "happyFunTimes p = None \<Longrightarrow> parseGameInfo st p fp = (Rejected, p)"
  by (simp add: parseGameInfo_def)

lemma parseGameInfo_defaults_throw:
  assumes "happyFunTimes p = Some h" and "fst (applyDefaults st h) = Some f"
  shows "parseGameInfo st p fp = (Thrown f, p\<lparr>happyFunTimes := Some (defaulted st h)\<rparr>)"
proof -
  obtain d where "applyDefaults st h = (Some f, d)"
    using assms(2) by (cases "applyDefaults st h") simp
  then show ?thesis using assms(1) by (simp add: parseGameInfo_def defaulted_def)
qed

lemma parseGameInfo_invalid:
  assumes "happyFunTimes p = Some h" and "fst (applyDefaults st h) = None"
    and "\<not> required_fields_valid (defaulted st h)"
  shows "parseGameInfo st p fp = (Rejected, p\<lparr>happyFunTimes := Some (defaulted st h)\<rparr>)"
proof -
  obtain d where d: "applyDefaults st h = (None, d)"
    using assms(2) by (cases "applyDefaults st h") simp
  then have "defaulted st h = d" by (simp add: defaulted_def)
  then show ?thesis
    using assms(1,3) d by (simp add: parseGameInfo_def validateObject_requiredFields)
qed

lemma parseGameInfo_unknown:
  assumes "happyFunTimes p = Some h" and "required_fields_valid (defaulted st h)"
    and "getProp (defaulted st h) ''gameType'' = Some (JStr g)"
    and "gameTypeDefaults st g = Absent"
  shows "parseGameInfo st p fp = (Rejected, p\<lparr>happyFunTimes := Some (defaulted st h)\<rparr>)"
  using assms
  by (simp add: parseGameInfo_def valid_defaults_no_throw validateObject_requiredFields
      js_toString_JStr)

lemma parseGameInfo_known:
  assumes "happyFunTimes p = Some h" and "required_fields_valid (defaulted st h)"
    and "getProp (defaulted st h) ''gameType'' = Some (JStr g)"
    and "gameTypeDefaults st g \<noteq> Absent"
  shows "parseGameInfo st p fp =
     (if getProp (snd (resolveVersion st (defaulted st h))) ''versionSettings'' = None \<or>
         g = []
      then (Rejected, p\<lparr>happyFunTimes := Some (snd (resolveVersion st (defaulted st h)))\<rparr>)
      else
        (case fst (fixUrls (snd (resolveVersion st (defaulted st h)))) of
           Some f \<Rightarrow>
             (Thrown f,
              p\<lparr>happyFunTimes := Some (snd (fixUrls (snd (resolveVersion st (defaulted st h)))))\<rparr>)
         | None \<Rightarrow>
             (case fst (fixExecutable (path_dirname fp)
                          (snd (fixUrls (snd (resolveVersion st (defaulted st h)))))) of
                Some f \<Rightarrow>
                  (Thrown f,
                   p\<lparr>happyFunTimes := Some (snd (fixExecutable (path_dirname fp)
                          (snd (fixUrls (snd (resolveVersion st (defaulted st h)))))))\<rparr>)
              | None \<Rightarrow>
                  (Returned,
                   p\<lparr>happyFunTimes := Some (setProp (snd (fixExecutable (path_dirname fp)
                          (snd (fixUrls (snd (resolveVersion st (defaulted st h)))))))
                       ''basePath'' (JStr (path_dirname fp)))\<rparr>))))"
proof -
  let ?d = "defaulted st h"
  from valid_apiVersion[OF assms(2)] obtain a where a: "getProp ?d ''apiVersion'' = Some (JStr a)"
    by blast
  have nt: "fst (resolveVersion st ?d) = None" by (rule resolveVersion_no_throw[OF a])
  obtain v where rv: "resolveVersion st ?d = (None, v)"
    using nt by (cases "resolveVersion st ?d") simp
  have gt: "getProp v ''gameType'' = Some (JStr g)"
    using getProp_resolveVersion[of "''gameType''" st ?d] rv assms(3) by simp
  obtain f1 x where fu: "fixUrls v = (f1, x)" by (cases "fixUrls v")
  obtain f2 y where fe: "fixExecutable (path_dirname fp) x = (f2, y)"
    by (cases "fixExecutable (path_dirname fp) x")
  show ?thesis
    using assms
    by (auto simp: parseGameInfo_def valid_defaults_no_throw validateObject_requiredFields
        js_toString_JStr rv gt fu fe Let_def split: option.splits)
qed
lemma parseGameInfo_after_version:
  assumes "happyFunTimes p = Some h" and "required_fields_valid (defaulted st h)"
    and "getProp (defaulted st h) ''gameType'' = Some (JStr g)"
    and "gameTypeDefaults st g \<noteq> Absent"
    and "k \<noteq> ''gameUrl''" and "k \<noteq> ''screenshotUrl''"
    and "k \<noteq> ''gameExecutable''" and "k \<noteq> ''basePath''"
  shows "\<exists>h'. happyFunTimes (snd (parseGameInfo st p fp)) = Some h' \<and>
        getProp h' k = getProp (snd (resolveVersion st (defaulted st h))) k"
proof -
  let ?v = "snd (resolveVersion st (defaulted st h))"
  let ?u = "snd (fixUrls ?v)"
  let ?x = "snd (fixExecutable (path_dirname fp) ?u)"
  let ?b = "setProp ?x ''basePath'' (JStr (path_dirname fp))"
  have u: "getProp ?u k = getProp ?v k"
    using assms(5,6) by (simp add: getProp_fixUrls)
  have x: "getProp ?x k = getProp ?v k"
    using assms(7) u by (simp add: getProp_fixExecutable)
  have b: "getProp ?b k = getProp ?v k"
    using assms(8) x by (simp add: getProp_setProp)
  have fin: "\<exists>h'. happyFunTimes (snd (parseGameInfo st p fp)) = Some h' \<and>
        getProp h' k = getProp ?v k"
    if "snd (parseGameInfo st p fp) = p\<lparr>happyFunTimes := Some y\<rparr>"
      and "getProp y k = getProp ?v k" for y
    using that by simp
  have "snd (parseGameInfo st p fp) = p\<lparr>happyFunTimes := Some ?v\<rparr> \<or>
        snd (parseGameInfo st p fp) = p\<lparr>happyFunTimes := Some ?u\<rparr> \<or>
        snd (parseGameInfo st p fp) = p\<lparr>happyFunTimes := Some ?x\<rparr> \<or>
        snd (parseGameInfo st p fp) = p\<lparr>happyFunTimes := Some ?b\<rparr>"
    by (simp add: parseGameInfo_known[OF assms(1-4)] split: option.splits)
  then show ?thesis
  proof (elim disjE)
    assume "snd (parseGameInfo st p fp) = p\<lparr>happyFunTimes := Some ?v\<rparr>"
    then show ?thesis by (rule fin) simp
  next
    assume "snd (parseGameInfo st p fp) = p\<lparr>happyFunTimes := Some ?u\<rparr>"
    then show ?thesis by (rule fin) (rule u)
  next
    assume "snd (parseGameInfo st p fp) = p\<lparr>happyFunTimes := Some ?x\<rparr>"
    then show ?thesis by (rule fin) (rule x)
  next
    assume "snd (parseGameInfo st p fp) = p\<lparr>happyFunTimes := Some ?b\<rparr>"
    then show ?thesis by (rule fin) (rule b)
  qed
qed

lemma parseGameInfo_Returned:
  assumes "fst (parseGameInfo st p fp) = Returned"
  shows "\<exists>h g. happyFunTimes p = Some h \<and> required_fields_valid (defaulted st h) \<and>
     getProp (defaulted st h) ''gameType'' = Some (JStr g) \<and> gameTypeDefaults st g \<noteq> Absent \<and>
     getProp (snd (resolveVersion st (defaulted st h))) ''versionSettings'' \<noteq> None"
proof -
  have h0: "happyFunTimes p \<noteq> None"
  proof
    assume "happyFunTimes p = None"
    then have "parseGameInfo st p fp = (Rejected, p)" by (rule parseGameInfo_missing)
    with assms show False by simp
  qed
  then obtain h where h: "happyFunTimes p = Some h" by blast
  have nt: "fst (applyDefaults st h) = None"
  proof (cases "fst (applyDefaults st h)")
    case (Some f)
    from parseGameInfo_defaults_throw[OF h Some] assms show ?thesis by simp
  qed simp
  have valid: "required_fields_valid (defaulted st h)"
  proof (rule ccontr)
    assume "\<not> required_fields_valid (defaulted st h)"
    from parseGameInfo_invalid[OF h nt this] assms show False by simp
  qed
  from valid_gameType[OF valid] obtain g where
    g: "getProp (defaulted st h) ''gameType'' = Some (JStr g)" by blast
  have known: "gameTypeDefaults st g \<noteq> Absent"
  proof
    assume "gameTypeDefaults st g = Absent"
    from parseGameInfo_unknown[OF h valid g this] assms show False by simp
  qed
  have vs: "getProp (snd (resolveVersion st (defaulted st h))) ''versionSettings'' \<noteq> None"
  proof
    assume "getProp (snd (resolveVersion st (defaulted st h))) ''versionSettings'' = None"
    then have "parseGameInfo st p fp =
        (Rejected, p\<lparr>happyFunTimes := Some (snd (resolveVersion st (defaulted st h)))\<rparr>)"
      by (simp add: parseGameInfo_known[OF h valid g known])
    with assms show False by simp
  qed
  show ?thesis using h valid g known vs by blast
qed

section \<open>Version resolution\<close>

text \<open>
  C1, as amended. For every manifest that passes the validation of its required fields
  (so its \<^verbatim>\<open>apiVersion\<close> is a valid semantic version) and whose game type passes the
  test of line 236 (the table of game types has a member of that name): when at least
  one key of \<^verbatim>\<open>apiVersionSettings\<close> satisfies the caret range of the
  \<^verbatim>\<open>apiVersion\<close>, \<^verbatim>\<open>parseGameInfo\<close> attaches as \<^verbatim>\<open>versionSettings\<close> the bundle keyed by
  a satisfying key that no satisfying key exceeds, and it leaves \<^verbatim>\<open>needNewHFT\<close> as the
  defaulted manifest had it (it never writes \<^verbatim>\<open>false\<close>; the field stays absent when
  neither the manifest nor a default supplies it). With the keys 1.0.0, 1.2.0 and 2.0.0
  and the requested version 1.0.0 the selected key is 1.2.0.
\<close>

theorem parseGameInfo_version_resolution:
  fixes st :: settings and p :: "'a packageInfo_scheme"
  assumes "happyFunTimes p = Some h"
    and "required_fields_valid (defaulted st h)"
    and "getProp (defaulted st h) ''gameType'' = Some (JStr g)"
    and "gameTypeDefaults st g \<noteq> Absent"
    and "\<exists>k \<in> fst ` set (apiVersionSettings st).
           semver_satisfies k (caret_range (defaulted st h))"
  shows "(\<exists>best bdl h'.
      best \<in> fst ` set (apiVersionSettings st) \<and>
      semver_satisfies best (caret_range (defaulted st h)) \<and>
      (\<forall>k \<in> fst ` set (apiVersionSettings st).
         semver_satisfies k (caret_range (defaulted st h)) \<longrightarrow> \<not> semver_gt k best) \<and>
      map_of (apiVersionSettings st) best = Some bdl \<and>
      happyFunTimes (snd (parseGameInfo st p fp)) = Some h' \<and>
      getProp h' ''versionSettings'' = Some bdl \<and>
      getProp h' ''needNewHFT'' = getProp (defaulted st h) ''needNewHFT'') \<and>
    semver_maxSatisfying [''1.0.0'', ''1.2.0'', ''2.0.0''] ''^1.0.0'' = Some ''1.2.0''"
proof -
  have example: "semver_maxSatisfying [''1.0.0'', ''1.2.0'', ''2.0.0''] ''^1.0.0'' = Some ''1.2.0''"
    by code_simp
  let ?d = "defaulted st h"
  let ?keys = "map fst (apiVersionSettings st)"
  from valid_apiVersion[OF assms(2)] obtain a where a: "getProp ?d ''apiVersion'' = Some (JStr a)"
    by blast
  have "semver_maxSatisfying ?keys (caret_range ?d) \<noteq> None"
    using assms(5) by (simp add: maxSatisfying_None)
  then obtain best where best: "semver_maxSatisfying ?keys (caret_range ?d) = Some best"
    by auto
  from maxSatisfying_Some[OF best]
  have mem: "best \<in> fst ` set (apiVersionSettings st)"
    and sat: "semver_satisfies best (caret_range ?d)"
    and mx: "\<forall>k \<in> fst ` set (apiVersionSettings st).
         semver_satisfies k (caret_range ?d) \<longrightarrow> \<not> semver_gt k best"
    by auto
  from mem obtain bdl where bdl: "map_of (apiVersionSettings st) best = Some bdl"
    by (metis domIff dom_map_of_conv_image_fst not_Some_eq)
  have rv: "resolveVersion st ?d = (None, assignVersionSettings st best ?d)"
    using a best by (rule resolveVersion_Some)
  have vs: "getProp (snd (resolveVersion st ?d)) ''versionSettings'' = Some bdl"
    by (simp add: rv getProp_assignVersionSettings bdl)
  have nn: "getProp (snd (resolveVersion st ?d)) ''needNewHFT'' = getProp ?d ''needNewHFT''"
    by (simp add: rv getProp_assignVersionSettings)
  from parseGameInfo_after_version[OF assms(1-4), of "''versionSettings''" fp]
  obtain h' where h': "happyFunTimes (snd (parseGameInfo st p fp)) = Some h'"
    and k1: "getProp h' ''versionSettings'' = getProp (snd (resolveVersion st ?d)) ''versionSettings''"
    by auto
  from parseGameInfo_after_version[OF assms(1-4), of "''needNewHFT''" fp] h'
  have k2: "getProp h' ''needNewHFT'' = getProp (snd (resolveVersion st ?d)) ''needNewHFT''"
    by auto
  have "getProp h' ''versionSettings'' = Some bdl" using k1 vs by simp
  moreover have "getProp h' ''needNewHFT'' = getProp ?d ''needNewHFT''" using k2 nn by simp
  ultimately have "\<exists>best bdl h'.
      best \<in> fst ` set (apiVersionSettings st) \<and>
      semver_satisfies best (caret_range (defaulted st h)) \<and>
      (\<forall>k \<in> fst ` set (apiVersionSettings st).
         semver_satisfies k (caret_range (defaulted st h)) \<longrightarrow> \<not> semver_gt k best) \<and>
      map_of (apiVersionSettings st) best = Some bdl \<and>
      happyFunTimes (snd (parseGameInfo st p fp)) = Some h' \<and>
      getProp h' ''versionSettings'' = Some bdl \<and>
      getProp h' ''needNewHFT'' = getProp (defaulted st h) ''needNewHFT''"
    using mem sat mx bdl h' by blast
  then show ?thesis using example by blast
qed

text \<open>
  C1 as stated fails: the manifest below carries \<^verbatim>\<open>needNewHFT: true\<close>, the key 1.2.0
  satisfies its caret range, and the result still has \<^verbatim>\<open>needNewHFT\<close> true.
\<close>

theorem parseGameInfo_needNewHFT_counterexample:
  "semver_satisfies ''1.2.0'' (caret_range (example_manifest @ [(''needNewHFT'', JBool True)])) \<and>
   parseGameInfo example_settings
       (example_package (example_manifest @ [(''needNewHFT'', JBool True)]))
       ''/games/foo/package.json''
     = (Returned,
        \<lparr>happyFunTimes = Some
          [(''gameId'', JStr ''jumpjump''),
           (''apiVersion'', JStr ''1.0.0''),
           (''category'', JStr ''game''),
           (''needNewHFT'', JBool True),
           (''gameType'', JStr ''html''),
           (''minPlayers'', JNum ''2''),
           (''versionSettings'', JStr ''settings-1.2.0''),
           (''basePath'', JStr ''/games/foo'')]\<rparr>)"
  by code_simp

theorem parseGameInfo_version_resolution_witness:
  "parseGameInfo example_settings (example_package example_manifest) ''/games/foo/package.json''
     = (Returned,
        \<lparr>happyFunTimes = Some
          [(''gameId'', JStr ''jumpjump''),
           (''apiVersion'', JStr ''1.0.0''),
           (''category'', JStr ''game''),
           (''gameType'', JStr ''html''),
           (''minPlayers'', JNum ''2''),
           (''versionSettings'', JStr ''settings-1.2.0''),
           (''basePath'', JStr ''/games/foo'')]\<rparr>) \<and>
   semver_maxSatisfying [''1.0.0'', ''1.2.0'', ''2.0.0''] ''^1.0.0'' = Some ''1.2.0''"
proof -
  have a: "happyFunTimes (example_package example_manifest) = Some example_manifest"
    by (simp add: example_package_def)
  have b: "required_fields_valid (defaulted example_settings example_manifest)"
    by code_simp
  have c: "getProp (defaulted example_settings example_manifest) ''gameType'' = Some (JStr ''html'')"
    by code_simp
  have c': "gameTypeDefaults example_settings ''html'' \<noteq> Absent"
    by code_simp
  have d1: "semver_satisfies ''1.2.0''
      (caret_range (defaulted example_settings example_manifest))"
    by code_simp
  have d2: "''1.2.0'' \<in> fst ` set (apiVersionSettings example_settings)"
    by (simp add: example_settings_def)
  have d: "\<exists>k \<in> fst ` set (apiVersionSettings example_settings).
           semver_satisfies k (caret_range (defaulted example_settings example_manifest))"
    using d1 d2 by blast
  have e: "parseGameInfo example_settings (example_package example_manifest)
      ''/games/foo/package.json''
     = (Returned,
        \<lparr>happyFunTimes = Some
          [(''gameId'', JStr ''jumpjump''),
           (''apiVersion'', JStr ''1.0.0''),
           (''category'', JStr ''game''),
           (''gameType'', JStr ''html''),
           (''minPlayers'', JNum ''2''),
           (''versionSettings'', JStr ''settings-1.2.0''),
           (''basePath'', JStr ''/games/foo'')]\<rparr>)"
    by code_simp
  from parseGameInfo_version_resolution[OF a b c c' d, of "''/games/foo/package.json''"] e
  show ?thesis by blast
qed

text \<open>
  C2, as amended. For every manifest that passes the validation of its required fields
  and whose game type passes the test of line 236: when no key of \<^verbatim>\<open>apiVersionSettings\<close> satisfies the
  caret range of the \<^verbatim>\<open>apiVersion\<close>, \<^verbatim>\<open>parseGameInfo\<close> sets \<^verbatim>\<open>needNewHFT = true\<close> and
  looks the bundle up under the fallback key \<^verbatim>\<open>0.0.0-unsupportedApiVersion\<close>. It rejects
  the manifest (returns no result, without throwing) when the settings have no such key;
  when they have one and the game type is not empty, the manifest is not rejected.
  Every manifest that \<^verbatim>\<open>parseGameInfo\<close> returns has a defined \<^verbatim>\<open>versionSettings\<close>.
\<close>

theorem parseGameInfo_unsupported_version:
  fixes st st' :: settings and p :: "'a packageInfo_scheme" and p' :: "'b packageInfo_scheme"
  shows
  "(happyFunTimes p = Some h \<and>
    required_fields_valid (defaulted st h) \<and>
    getProp (defaulted st h) ''gameType'' = Some (JStr g) \<and>
    gameTypeDefaults st g \<noteq> Absent \<and>
    (\<forall>k \<in> fst ` set (apiVersionSettings st).
       \<not> semver_satisfies k (caret_range (defaulted st h))) \<longrightarrow>
    (\<exists>h'. happyFunTimes (snd (parseGameInfo st p fp)) = Some h' \<and>
          getProp h' ''needNewHFT'' = Some (JBool True) \<and>
          getProp h' ''versionSettings'' =
            map_of (apiVersionSettings st) ''0.0.0-unsupportedApiVersion'') \<and>
    (map_of (apiVersionSettings st) ''0.0.0-unsupportedApiVersion'' = None \<longrightarrow>
       fst (parseGameInfo st p fp) = Rejected) \<and>
    (map_of (apiVersionSettings st) ''0.0.0-unsupportedApiVersion'' \<noteq> None \<and> g \<noteq> [] \<longrightarrow>
       fst (parseGameInfo st p fp) \<noteq> Rejected)) \<and>
   (fst (parseGameInfo st' p' fp') = Returned \<longrightarrow>
      (\<exists>h'. happyFunTimes (snd (parseGameInfo st' p' fp')) = Some h' \<and>
            getProp h' ''versionSettings'' \<noteq> None))"
proof -
  have part2: "\<exists>h'. happyFunTimes (snd (parseGameInfo st' p' fp')) = Some h' \<and>
            getProp h' ''versionSettings'' \<noteq> None"
    if ret: "fst (parseGameInfo st' p' fp') = Returned"
  proof -
    from parseGameInfo_Returned[OF ret] obtain h g where h: "happyFunTimes p' = Some h"
      and valid: "required_fields_valid (defaulted st' h)"
      and g: "getProp (defaulted st' h) ''gameType'' = Some (JStr g)"
      and known: "gameTypeDefaults st' g \<noteq> Absent"
      and vs: "getProp (snd (resolveVersion st' (defaulted st' h))) ''versionSettings'' \<noteq> None"
      by blast
    from parseGameInfo_after_version[OF h valid g known, of "''versionSettings''" fp'] vs
    show ?thesis by auto
  qed
  have part1: "(\<exists>h'. happyFunTimes (snd (parseGameInfo st p fp)) = Some h' \<and>
          getProp h' ''needNewHFT'' = Some (JBool True) \<and>
          getProp h' ''versionSettings'' =
            map_of (apiVersionSettings st) ''0.0.0-unsupportedApiVersion'') \<and>
    (map_of (apiVersionSettings st) ''0.0.0-unsupportedApiVersion'' = None \<longrightarrow>
       fst (parseGameInfo st p fp) = Rejected) \<and>
    (map_of (apiVersionSettings st) ''0.0.0-unsupportedApiVersion'' \<noteq> None \<and> g \<noteq> [] \<longrightarrow>
       fst (parseGameInfo st p fp) \<noteq> Rejected)"
    if h: "happyFunTimes p = Some h"
      and valid: "required_fields_valid (defaulted st h)"
      and g: "getProp (defaulted st h) ''gameType'' = Some (JStr g)"
      and known: "gameTypeDefaults st g \<noteq> Absent"
      and none: "\<forall>k \<in> fst ` set (apiVersionSettings st).
         \<not> semver_satisfies k (caret_range (defaulted st h))"
  proof -
    let ?d = "defaulted st h"
    let ?v = "snd (resolveVersion st ?d)"
    from valid_apiVersion[OF valid] obtain a where a: "getProp ?d ''apiVersion'' = Some (JStr a)"
      by blast
    have "semver_maxSatisfying (map fst (apiVersionSettings st)) (caret_range ?d) = None"
      using none by (simp add: maxSatisfying_None)
    then have rv: "resolveVersion st ?d =
        (None, assignVersionSettings st ''0.0.0-unsupportedApiVersion''
                 (setProp ?d ''needNewHFT'' (JBool True)))"
      using a by (simp add: resolveVersion_None)
    have vs: "getProp ?v ''versionSettings'' =
        map_of (apiVersionSettings st) ''0.0.0-unsupportedApiVersion''"
      by (simp add: rv getProp_assignVersionSettings)
    have nn: "getProp ?v ''needNewHFT'' = Some (JBool True)"
      by (simp add: rv getProp_assignVersionSettings getProp_setProp)
    from parseGameInfo_after_version[OF h valid g known, of "''versionSettings''" fp]
    obtain h' where h': "happyFunTimes (snd (parseGameInfo st p fp)) = Some h'"
      and k1: "getProp h' ''versionSettings'' = getProp ?v ''versionSettings''"
      by auto
    from parseGameInfo_after_version[OF h valid g known, of "''needNewHFT''" fp] h'
    have k2: "getProp h' ''needNewHFT'' = getProp ?v ''needNewHFT''"
      by auto
    have s1: "\<exists>h'. happyFunTimes (snd (parseGameInfo st p fp)) = Some h' \<and>
          getProp h' ''needNewHFT'' = Some (JBool True) \<and>
          getProp h' ''versionSettings'' =
            map_of (apiVersionSettings st) ''0.0.0-unsupportedApiVersion''"
      using h' k1 k2 vs nn by simp
    have s2: "fst (parseGameInfo st p fp) = Rejected"
      if "map_of (apiVersionSettings st) ''0.0.0-unsupportedApiVersion'' = None"
      using that vs by (simp add: parseGameInfo_known[OF h valid g known])
    have s3: "fst (parseGameInfo st p fp) \<noteq> Rejected"
      if "map_of (apiVersionSettings st) ''0.0.0-unsupportedApiVersion'' \<noteq> None" "g \<noteq> []"
      using that vs by (auto simp: parseGameInfo_known[OF h valid g known] split: option.splits)
    show ?thesis using s1 s2 s3 by blast
  qed
  show ?thesis using part1 part2 by blast
qed

text \<open>
  C2 as stated fails: with a bundle under the fallback key, a manifest asking for 9.0.0,
  which no key satisfies, is returned with \<^verbatim>\<open>needNewHFT\<close> true and not rejected.
\<close>

theorem parseGameInfo_fallback_counterexample:
  "semver_maxSatisfying (map fst (apiVersionSettings fallback_settings))
      (caret_range (setProp example_manifest ''apiVersion'' (JStr ''9.0.0''))) = None \<and>
   parseGameInfo fallback_settings
       (example_package (setProp example_manifest ''apiVersion'' (JStr ''9.0.0'')))
       ''/games/foo/package.json''
     = (Returned,
        \<lparr>happyFunTimes = Some
          [(''gameId'', JStr ''jumpjump''),
           (''apiVersion'', JStr ''9.0.0''),
           (''category'', JStr ''game''),
           (''gameType'', JStr ''html''),
           (''minPlayers'', JNum ''2''),
           (''needNewHFT'', JBool True),
           (''versionSettings'', JStr ''settings-unsupported''),
           (''basePath'', JStr ''/games/foo'')]\<rparr>)"
  by code_simp

theorem parseGameInfo_unsupported_version_witness:
  "parseGameInfo example_settings
       (example_package (setProp example_manifest ''apiVersion'' (JStr ''9.0.0'')))
       ''/games/foo/package.json''
     = (Rejected,
        \<lparr>happyFunTimes = Some
          [(''gameId'', JStr ''jumpjump''),
           (''apiVersion'', JStr ''9.0.0''),
           (''category'', JStr ''game''),
           (''gameType'', JStr ''html''),
           (''minPlayers'', JNum ''2''),
           (''needNewHFT'', JBool True)]\<rparr>)"
proof -
  let ?m = "setProp example_manifest ''apiVersion'' (JStr ''9.0.0'')"
  have a: "happyFunTimes (example_package ?m) = Some ?m"
    by (simp add: example_package_def)
  have b: "required_fields_valid (defaulted example_settings ?m)"
    by code_simp
  have c: "getProp (defaulted example_settings ?m) ''gameType'' = Some (JStr ''html'')"
    by code_simp
  have c': "gameTypeDefaults example_settings ''html'' \<noteq> Absent"
    by code_simp
  have d1: "\<not> semver_satisfies ''1.0.0'' (caret_range (defaulted example_settings ?m))"
    by code_simp
  have d2: "\<not> semver_satisfies ''1.2.0'' (caret_range (defaulted example_settings ?m))"
    by code_simp
  have d3: "\<not> semver_satisfies ''2.0.0'' (caret_range (defaulted example_settings ?m))"
    by code_simp
  have d: "\<forall>k \<in> fst ` set (apiVersionSettings example_settings).
           \<not> semver_satisfies k (caret_range (defaulted example_settings ?m))"
    using d1 d2 d3 by (simp add: example_settings_def)
  have e: "map_of (apiVersionSettings example_settings) ''0.0.0-unsupportedApiVersion'' = None"
    by code_simp
  from a b c c' d e
    parseGameInfo_unsupported_version
      [of "example_package ?m" ?m example_settings "''html''" "''/games/foo/package.json''"]
  have "fst (parseGameInfo example_settings (example_package ?m) ''/games/foo/package.json'')
          = Rejected"
    by blast
  moreover have "snd (parseGameInfo example_settings (example_package ?m)
      ''/games/foo/package.json'') = \<lparr>happyFunTimes = Some
          [(''gameId'', JStr ''jumpjump''),
           (''apiVersion'', JStr ''9.0.0''),
           (''category'', JStr ''game''),
           (''gameType'', JStr ''html''),
           (''minPlayers'', JNum ''2''),
           (''needNewHFT'', JBool True)]\<rparr>"
    by code_simp
  ultimately show ?thesis by (metis prod.collapse)
qed
section \<open>The identifier validator\<close>





section \<open>The order of the two default steps\<close>

text \<open>
  C4. Global defaults are applied before the defaults of the game type, and the latter
  are looked up by the \<^verbatim>\<open>gameType\<close> of the manifest as the global defaults left it. A
  manifest with no \<^verbatim>\<open>gameType\<close> and no \<^verbatim>\<open>minPlayers\<close>, under the global defaults
  \<^verbatim>\<open>{gameType: "html"}\<close> and the defaults \<^verbatim>\<open>{minPlayers: 2}\<close> for \<^verbatim>\<open>html\<close>, ends up
  with \<^verbatim>\<open>gameType\<close> \<^verbatim>\<open>html\<close> and \<^verbatim>\<open>minPlayers\<close> 2. When \<^verbatim>\<open>hftGameTypeDefaults\<close>
  has no entry for that game type, the second step changes nothing. When that
  \<^verbatim>\<open>gameType\<close> cannot be converted to a key, the second step throws and the manifest
  keeps the global defaults.
\<close>

theorem applyDefaults_order:
  "(getProp hftInfo ''gameType'' = None \<and> getProp hftInfo ''minPlayers'' = None \<and>
    hftDefaults st = Some [(''gameType'', JStr ''html'')] \<and>
    map_of (hftGameTypeDefaults st) ''html'' = Some [(''minPlayers'', JNum ''2'')] \<longrightarrow>
      getProp (defaulted st hftInfo) ''gameType'' = Some (JStr ''html'') \<and>
      getProp (defaulted st hftInfo) ''minPlayers'' = Some (JNum ''2'')) \<and>
   (js_toString (getProp (applyDefaultProperties hftInfo (hftDefaults st)) ''gameType'')
      = Some key \<and>
    map_of (hftGameTypeDefaults st) key = Some d \<longrightarrow>
      applyDefaults st hftInfo =
        (None, applyDefaultProperties (applyDefaultProperties hftInfo (hftDefaults st)) (Some d))) \<and>
   (js_toString (getProp (applyDefaultProperties hftInfo (hftDefaults st)) ''gameType'')
      = Some key \<and>
    map_of (hftGameTypeDefaults st) key = None \<longrightarrow>
      applyDefaults st hftInfo = (None, applyDefaultProperties hftInfo (hftDefaults st))) \<and>
   (js_toString (getProp (applyDefaultProperties hftInfo (hftDefaults st)) ''gameType'') = None
    \<longrightarrow>
      applyDefaults st hftInfo =
        (Some TypeError, applyDefaultProperties hftInfo (hftDefaults st)))"
proof -
  let ?w = "applyDefaultProperties hftInfo (hftDefaults st)"
  have own: "applyDefaults st hftInfo = (None, applyDefaultProperties ?w (Some d'))"
    if "js_toString (getProp ?w ''gameType'') = Some key'"
      and "map_of (hftGameTypeDefaults st) key' = Some d'" for key' d'
  proof -
    have "enumerable (gameTypeDefaults st key') = Some d'"
      using that(2) by (simp add: gameTypeDefaults_def enumerable_def)
    with that(1) show ?thesis by (simp add: applyDefaults_unfold)
  qed
  have noop: "applyDefaults st hftInfo = (None, ?w)"
    if "js_toString (getProp ?w ''gameType'') = Some key'"
      and "map_of (hftGameTypeDefaults st) key' = None" for key'
  proof -
    have "enumerable (gameTypeDefaults st key') = None \<or>
        enumerable (gameTypeDefaults st key') = Some []"
      using that(2) by (simp add: gameTypeDefaults_def enumerable_def)
    then have "applyDefaultProperties ?w (enumerable (gameTypeDefaults st key')) = ?w"
      by (auto simp: applyDefaultProperties_def copyProperties_def)
    with that(1) show ?thesis by (simp add: applyDefaults_unfold)
  qed
  have ex: "getProp (defaulted st hftInfo) ''gameType'' = Some (JStr ''html'') \<and>
      getProp (defaulted st hftInfo) ''minPlayers'' = Some (JNum ''2'')"
    if h1: "getProp hftInfo ''gameType'' = None" and h2: "getProp hftInfo ''minPlayers'' = None"
      and h3: "hftDefaults st = Some [(''gameType'', JStr ''html'')]"
      and h4: "map_of (hftGameTypeDefaults st) ''html'' = Some [(''minPlayers'', JNum ''2'')]"
  proof -
    have g: "getProp ?w ''gameType'' = Some (JStr ''html'')"
      using h1 h3 by (simp add: getProp_applyDefaultProperties getProp_Cons)
    have m: "getProp ?w ''minPlayers'' = None"
      using h2 h3 by (simp add: getProp_applyDefaultProperties getProp_Cons getProp_Nil)
    have j: "js_toString (getProp ?w ''gameType'') = Some ''html''"
      by (simp only: g js_toString_JStr)
    have B: "defaulted st hftInfo =
        applyDefaultProperties ?w (Some [(''minPlayers'', JNum ''2'')])"
      by (simp add: defaulted_def own[OF j h4])
    have "getProp (defaulted st hftInfo) ''gameType'' = Some (JStr ''html'')"
      unfolding B by (subst getProp_applyDefaultProperties) (simp add: g)
    moreover have "getProp (defaulted st hftInfo) ''minPlayers'' = Some (JNum ''2'')"
      unfolding B by (subst getProp_applyDefaultProperties) (simp add: m getProp_Cons)
    ultimately show ?thesis by (rule conjI)
  qed
  show ?thesis
  proof (intro conjI impI)
    assume "getProp hftInfo ''gameType'' = None \<and> getProp hftInfo ''minPlayers'' = None \<and>
      hftDefaults st = Some [(''gameType'', JStr ''html'')] \<and>
      map_of (hftGameTypeDefaults st) ''html'' = Some [(''minPlayers'', JNum ''2'')]"
    then have e: "getProp (defaulted st hftInfo) ''gameType'' = Some (JStr ''html'') \<and>
      getProp (defaulted st hftInfo) ''minPlayers'' = Some (JNum ''2'')"
      by (elim conjE) (rule ex)
    from e show "getProp (defaulted st hftInfo) ''gameType'' = Some (JStr ''html'')" ..
    from e show "getProp (defaulted st hftInfo) ''minPlayers'' = Some (JNum ''2'')" ..
  next
    assume "js_toString (getProp ?w ''gameType'') = Some key \<and>
      map_of (hftGameTypeDefaults st) key = Some d"
    then show "applyDefaults st hftInfo = (None, applyDefaultProperties ?w (Some d))"
      by (elim conjE) (rule own)
  next
    assume "js_toString (getProp ?w ''gameType'') = Some key \<and>
      map_of (hftGameTypeDefaults st) key = None"
    then show "applyDefaults st hftInfo = (None, ?w)"
      by (elim conjE) (rule noop)
  next
    assume "js_toString (getProp ?w ''gameType'') = None"
    then show "applyDefaults st hftInfo = (Some TypeError, ?w)"
      by (simp add: applyDefaults_unfold)
  qed
qed

theorem applyDefaults_order_witness:
  "applyDefaults example_settings example_manifest =
     (None,
      [(''gameId'', JStr ''jumpjump''),
       (''apiVersion'', JStr ''1.0.0''),
       (''category'', JStr ''game''),
       (''gameType'', JStr ''html''),
       (''minPlayers'', JNum ''2'')]) \<and>
   getProp (defaulted example_settings example_manifest) ''gameType'' = Some (JStr ''html'') \<and>
   getProp (defaulted example_settings example_manifest) ''minPlayers'' = Some (JNum ''2'') \<and>
   applyDefaults (example_settings\<lparr>hftGameTypeDefaults := []\<rparr>) example_manifest =
     (None, applyDefaultProperties example_manifest (hftDefaults example_settings)) \<and>
   applyDefaults example_settings [(''gameType'', JObj [(''toString'', JNum ''1'')])] =
     (Some TypeError, [(''gameType'', JObj [(''toString'', JNum ''1'')])])"
proof -
  let ?s0 = "example_settings\<lparr>hftGameTypeDefaults := []\<rparr>"
  have a: "getProp example_manifest ''gameType'' = None \<and>
    getProp example_manifest ''minPlayers'' = None \<and>
    hftDefaults example_settings = Some [(''gameType'', JStr ''html'')] \<and>
    map_of (hftGameTypeDefaults example_settings) ''html'' = Some [(''minPlayers'', JNum ''2'')]"
    by (simp add: example_manifest_def getProp_def example_settings_def)
  have c: "applyDefaults example_settings example_manifest =
     (None,
      [(''gameId'', JStr ''jumpjump''),
       (''apiVersion'', JStr ''1.0.0''),
       (''category'', JStr ''game''),
       (''gameType'', JStr ''html''),
       (''minPlayers'', JNum ''2'')])"
    by code_simp
  have d: "getProp (defaulted example_settings example_manifest) ''gameType''
      = Some (JStr ''html'') \<and>
    getProp (defaulted example_settings example_manifest) ''minPlayers'' = Some (JNum ''2'')"
    by (rule applyDefaults_order[THEN conjunct1, THEN mp]) (rule a)
  have n: "js_toString (getProp (applyDefaultProperties example_manifest (hftDefaults ?s0))
         ''gameType'') = Some ''html'' \<and>
      map_of (hftGameTypeDefaults ?s0) ''html'' = None"
    by code_simp
  have "applyDefaults ?s0 example_manifest =
      (None, applyDefaultProperties example_manifest (hftDefaults ?s0))"
    by (rule applyDefaults_order[THEN conjunct2, THEN conjunct2, THEN conjunct1, THEN mp])
      (rule n)
  then have e: "applyDefaults ?s0 example_manifest =
      (None, applyDefaultProperties example_manifest (hftDefaults example_settings))"
    by simp
  let ?m = "[(''gameType'', JObj [(''toString'', JNum ''1'')])]"
  have t: "js_toString (getProp (applyDefaultProperties ?m (hftDefaults example_settings))
         ''gameType'') = None"
    by code_simp
  have "applyDefaults example_settings ?m =
      (Some TypeError, applyDefaultProperties ?m (hftDefaults example_settings))"
    by (rule applyDefaults_order[THEN conjunct2, THEN conjunct2, THEN conjunct2, THEN mp])
      (rule t)
  moreover have "applyDefaultProperties ?m (hftDefaults example_settings) = ?m"
    by code_simp
  ultimately have f: "applyDefaults example_settings ?m = (Some TypeError, ?m)"
    by (simp only:)
  show ?thesis by (intro conjI c e f d[THEN conjunct1] d[THEN conjunct2])
qed

section \<open>Properties of paths\<close>

lemma split_on_not_Nil: "split_on d s \<noteq> []"
  by (induction s) (auto split: list.splits)

lemma split_on_free: "w \<in> set (split_on d s) \<Longrightarrow> d \<notin> set w"
proof (induction s arbitrary: w)
  case Nil
  then show ?case by simp
next
  case (Cons c cs)
  show ?case
  proof (cases "c = d")
    case True
    with Cons show ?thesis by auto
  next
    case False
    obtain v vs where v: "split_on d cs = v # vs"
      using split_on_not_Nil[of d cs] by (cases "split_on d cs") auto
    with Cons.prems False have "w = c # v \<or> w \<in> set vs" by simp
    then show ?thesis
    proof
      assume "w = c # v"
      moreover have "d \<notin> set v" using Cons.IH[of v] v by simp
      ultimately show ?thesis using False by simp
    next
      assume "w \<in> set vs"
      then show ?thesis using Cons.IH[of w] v by simp
    qed
  qed
qed

lemma split_on_word: "d \<notin> set w \<Longrightarrow> split_on d w = [w]"
  by (induction w) auto

lemma split_on_append: "d \<notin> set w \<Longrightarrow> split_on d (w @ d # rest) = w # split_on d rest"
  by (induction w) auto

lemma split_on_snoc: "split_on d (s @ [d]) = split_on d s @ [[]]"
proof (induction s)
  case Nil
  show ?case by simp
next
  case (Cons c cs)
  obtain v vs where v: "split_on d cs = v # vs"
    using split_on_not_Nil[of d cs] by (cases "split_on d cs") auto
  show ?case using Cons v by simp
qed

lemma join_with_eq_Nil:
  "\<forall>x \<in> set xs. x \<noteq> [] \<Longrightarrow> join_with sep xs = [] \<longleftrightarrow> xs = []"
  by (induction sep xs rule: join_with.induct) auto

lemma hd_join_with:
  "xs \<noteq> [] \<Longrightarrow> hd xs \<noteq> [] \<Longrightarrow> hd (join_with sep xs) = hd (hd xs)"
  by (induction sep xs rule: join_with.induct) auto

lemma join_with_append:
  "xs \<noteq> [] \<Longrightarrow> ys \<noteq> [] \<Longrightarrow> join_with sep (xs @ ys) = join_with sep xs @ sep @ join_with sep ys"
proof (induction sep xs rule: join_with.induct)
  case (1 sep)
  then show ?case by simp
next
  case (2 sep x)
  then show ?case by (cases ys) auto
next
  case (3 sep x y ys')
  then show ?case by simp
qed

text \<open>The non-empty segments of a path.\<close>

lemma segments_join:
  "\<forall>x \<in> set xs. x \<noteq> [] \<and> CHR ''/'' \<notin> set x \<Longrightarrow>
   filter (\<lambda>s. s \<noteq> []) (split_on CHR ''/'' (join_with ''/'' xs)) = xs"
proof (induction "''/''" xs rule: join_with.induct)
  case 1
  show ?case by simp
next
  case (2 x)
  then show ?case by (simp add: split_on_word)
next
  case (3 x y ys)
  then show ?case by (simp add: split_on_append)
qed

lemma segments_slash:
  "filter (\<lambda>s. s \<noteq> []) (split_on CHR ''/'' (CHR ''/'' # s)) =
   filter (\<lambda>s. s \<noteq> []) (split_on CHR ''/'' s)"
  by simp

lemma segments_snoc:
  "filter (\<lambda>s. s \<noteq> []) (split_on CHR ''/'' (s @ ''/'')) =
   filter (\<lambda>s. s \<noteq> []) (split_on CHR ''/'' s)"
  by (simp add: split_on_snoc)

text \<open>The scan of \<^verbatim>\<open>normalizeArray\<close>.\<close>

lemma scan_kept:
  "x \<in> set (fst (normalizeArray_scan parts)) \<Longrightarrow> x \<noteq> ''.'' \<and> x \<noteq> ''..'' \<and> x \<in> set parts"
  by (induction parts arbitrary: x) (auto split: prod.splits if_splits)

lemma scan_clean:
  "\<forall>x \<in> set ks. x \<noteq> ''.'' \<and> x \<noteq> ''..'' \<Longrightarrow> normalizeArray_scan ks = (ks, 0)"
  by (induction ks) auto

lemma scan_dots:
  "normalizeArray_scan (replicate n ''..'' @ ks) =
     (fst (normalizeArray_scan ks), snd (normalizeArray_scan ks) + n)"
  by (induction n) (auto split: prod.splits)

lemma normalizeArray_idem: "normalizeArray (normalizeArray parts b) b = normalizeArray parts b"
proof -
  obtain kept up where s: "normalizeArray_scan parts = (kept, up)"
    by (cases "normalizeArray_scan parts")
  have "\<forall>x \<in> set kept. x \<noteq> ''.'' \<and> x \<noteq> ''..''"
    using scan_kept[of _ parts] s by auto
  then have c: "normalizeArray_scan kept = (kept, 0)" by (rule scan_clean)
  show ?thesis
    by (simp add: normalizeArray_def s c scan_dots)
qed

lemma normalizeArray_members:
  "x \<in> set (normalizeArray parts b) \<Longrightarrow> x = ''..'' \<or> x \<in> set parts"
proof -
  assume x: "x \<in> set (normalizeArray parts b)"
  obtain kept up where s: "normalizeArray_scan parts = (kept, up)"
    by (cases "normalizeArray_scan parts")
  from x s have "x = ''..'' \<or> x \<in> set kept"
    by (auto simp: normalizeArray_def split: if_splits)
  then show ?thesis using scan_kept[of x parts] s by auto
qed

lemma normalizeArray_dot: "normalizeArray [''.''] b = []"
  by (simp add: normalizeArray_def)

lemma path_segments_proper:
  "x \<in> set (path_segments q) \<Longrightarrow> x \<noteq> [] \<and> CHR ''/'' \<notin> set x"
proof -
  assume "x \<in> set (path_segments q)"
  then have "x = ''..'' \<or> x \<in> set (filter (\<lambda>s. s \<noteq> []) (split_on CHR ''/'' q))"
    unfolding path_segments_def by (rule normalizeArray_members)
  then show ?thesis using split_on_free[of x "CHR ''/''" q] by auto
qed

text \<open>\<^verbatim>\<open>path.normalize\<close> writes a path from its kind and its segments.\<close>

lemma path_normalize_absolute:
  "path_isAbsolute q \<Longrightarrow>
   path_normalize q =
     CHR ''/'' # join_with ''/'' (path_segments q) @
       (if path_segments q \<noteq> [] \<and> last q = CHR ''/'' then ''/'' else [])"
proof -
  assume a: "path_isAbsolute q"
  have "join_with ''/'' (path_segments q) = [] \<longleftrightarrow> path_segments q = []"
    using path_segments_proper[of _ q] by (intro join_with_eq_Nil) auto
  then show ?thesis
    using a by (auto simp: path_normalize_def path_segments_def path_isAbsolute_def Let_def)
qed

lemma path_normalize_relative:
  "\<not> path_isAbsolute q \<Longrightarrow>
   path_normalize q =
     (if path_segments q = [] then ''.'' else join_with ''/'' (path_segments q)) @
       (if q \<noteq> [] \<and> last q = CHR ''/'' then ''/'' else [])"
proof -
  assume a: "\<not> path_isAbsolute q"
  have "join_with ''/'' (path_segments q) = [] \<longleftrightarrow> path_segments q = []"
    using path_segments_proper[of _ q] by (intro join_with_eq_Nil) auto
  then show ?thesis
    using a by (auto simp: path_normalize_def path_segments_def path_isAbsolute_def Let_def)
qed

lemma path_isAbsolute_normalize: "path_isAbsolute (path_normalize q) = path_isAbsolute q"
proof (cases "path_isAbsolute q")
  case True
  then show ?thesis by (simp add: path_normalize_absolute) (simp add: path_isAbsolute_def)
next
  case False
  show ?thesis
  proof (cases "path_segments q")
    case Nil
    with False show ?thesis
      by (simp add: path_normalize_relative) (simp add: path_isAbsolute_def)
  next
    case (Cons s ss)
    then have s: "s \<noteq> [] \<and> CHR ''/'' \<notin> set s"
      using path_segments_proper[of s q] by simp
    then have "hd s \<noteq> CHR ''/''" by (cases s) auto
    moreover have "hd (join_with ''/'' (s # ss)) = hd s"
      using s by (simp add: hd_join_with)
    moreover have "join_with ''/'' (s # ss) \<noteq> []"
      using s by (cases ss) auto
    ultimately show ?thesis
      using False Cons by (simp add: path_normalize_relative path_isAbsolute_def)
  qed
qed

lemma path_segments_normalize: "path_segments (path_normalize q) = path_segments q"
proof -
  let ?F = "\<lambda>p. filter (\<lambda>s. s \<noteq> []) (split_on CHR ''/'' p)"
  have proper: "\<forall>x \<in> set (path_segments q). x \<noteq> [] \<and> CHR ''/'' \<notin> set x"
    using path_segments_proper[of _ q] by blast
  have j: "?F (join_with ''/'' (path_segments q)) = path_segments q"
    using proper by (rule segments_join)
  have idem: "normalizeArray (path_segments q) (\<not> path_isAbsolute q) = path_segments q"
    unfolding path_segments_def by (rule normalizeArray_idem)
  show ?thesis
  proof (cases "path_isAbsolute q")
    case True
    have "?F (path_normalize q) = path_segments q"
      using True j by (simp add: path_normalize_absolute split_on_snoc)
    then have "path_segments (path_normalize q) =
        normalizeArray (path_segments q) (\<not> path_isAbsolute q)"
      by (simp add: path_segments_def[of "path_normalize q"] path_isAbsolute_normalize)
    then show ?thesis by (simp only: idem)
  next
    case False
    show ?thesis
    proof (cases "path_segments q = []")
      case True
      have "?F (path_normalize q) = [''.'']"
        using False True by (simp add: path_normalize_relative split_on_snoc)
      then have "path_segments (path_normalize q) = normalizeArray [''.''] True"
        using False
        by (simp add: path_segments_def[of "path_normalize q"] path_isAbsolute_normalize)
      then show ?thesis using True by (simp add: normalizeArray_dot)
    next
      case ne: False
      have "?F (path_normalize q) = path_segments q"
        using False ne j by (simp add: path_normalize_relative split_on_snoc)
      then have "path_segments (path_normalize q) =
          normalizeArray (path_segments q) (\<not> path_isAbsolute q)"
        by (simp add: path_segments_def[of "path_normalize q"] path_isAbsolute_normalize)
      then show ?thesis by (simp only: idem)
    qed
  qed
qed

text \<open>
  For a directory written in normalized form, the comparison of line 298 accepts every
  path that lies within the directory.
\<close>

lemma path_normalize_absolute_form:
  "path_isAbsolute q \<Longrightarrow>
   \<exists>t. path_normalize q = (CHR ''/'' # join_with ''/'' (path_segments q)) @ t"
  by (simp add: path_normalize_absolute)

lemma path_normalize_relative_form:
  "\<not> path_isAbsolute q \<Longrightarrow> path_segments q \<noteq> [] \<Longrightarrow>
   \<exists>t. path_normalize q = join_with ''/'' (path_segments q) @ t"
  by (simp add: path_normalize_relative)

lemma join_with_prefix:
  "xs \<noteq> [] \<Longrightarrow> \<exists>u. join_with sep (xs @ ys) = join_with sep xs @ u"
  by (cases "ys = []") (simp_all add: join_with_append)

lemma lies_within_take:
  assumes "normalized_directory base" and "lies_within base (path_normalize q)"
  shows "take (length base) (path_normalize q) = base"
proof -
  let ?bs = "path_segments base"
  from assms(1) have nb: "path_normalize base = base" and nd: "base \<noteq> ''.''"
    and nl: "base = ''/'' \<or> last base \<noteq> CHR ''/''"
    by (simp_all add: normalized_directory_def)
  from assms(2) have ab: "path_isAbsolute base = path_isAbsolute q"
    and pre: "take (length ?bs) (path_segments q) = ?bs"
    by (simp_all add: lies_within_def path_isAbsolute_normalize path_segments_normalize)
  have "path_segments q = ?bs @ drop (length ?bs) (path_segments q)"
    using pre append_take_drop_id[of "length ?bs" "path_segments q"] by simp
  then obtain rest where rest: "path_segments q = ?bs @ rest" ..
  have "\<exists>z. path_normalize q = base @ z"
  proof (cases "path_isAbsolute base")
    case True
    then have q: "path_isAbsolute q" using ab by simp
    from path_normalize_absolute_form[OF q] obtain t where
      t: "path_normalize q = (CHR ''/'' # join_with ''/'' (path_segments q)) @ t" ..
    show ?thesis
    proof (cases "?bs = []")
      case e: True
      have "path_normalize base = ''/''"
        using path_normalize_absolute[OF True] e by simp
      then have "base = ''/''" by (simp only: nb)
      then show ?thesis by (simp add: t)
    next
      case ne: False
      have b1: "path_normalize base = CHR ''/'' # join_with ''/'' ?bs @
          (if last base = CHR ''/'' then ''/'' else [])"
        using path_normalize_absolute[OF True] ne by simp
      have "base \<noteq> ''/''"
      proof
        assume "base = ''/''"
        then have "path_segments base = []" by (simp add: path_segments_def normalizeArray_def)
        with ne show False by simp
      qed
      with nl have "last base \<noteq> CHR ''/''" by simp
      with b1 have "path_normalize base = CHR ''/'' # join_with ''/'' ?bs" by simp
      then have b: "CHR ''/'' # join_with ''/'' ?bs = base" by (simp only: nb)
      from join_with_prefix[OF ne] obtain u where
        u: "join_with ''/'' (?bs @ rest) = join_with ''/'' ?bs @ u" ..
      have "path_normalize q = (CHR ''/'' # join_with ''/'' ?bs) @ (u @ t)"
        by (simp add: t rest u)
      then have "path_normalize q = base @ (u @ t)" by (simp only: b)
      then show ?thesis ..
    qed
  next
    case False
    then have q: "\<not> path_isAbsolute q" using ab by simp
    have b0: "path_normalize base =
        (if ?bs = [] then ''.'' else join_with ''/'' ?bs) @
        (if base \<noteq> [] \<and> last base = CHR ''/'' then ''/'' else [])"
      by (rule path_normalize_relative[OF False])
    have "base \<noteq> ''/''" using False by (auto simp: path_isAbsolute_def)
    with nl have l: "last base \<noteq> CHR ''/''" by simp
    have ne: "?bs \<noteq> []"
    proof
      assume "?bs = []"
      with b0 l have "path_normalize base = ''.''" by simp
      then have "base = ''.''" by (simp only: nb)
      with nd show False by simp
    qed
    with b0 l have "path_normalize base = join_with ''/'' ?bs" by simp
    then have b: "join_with ''/'' ?bs = base" by (simp only: nb)
    have "path_segments q \<noteq> []" using rest ne by simp
    from path_normalize_relative_form[OF q this] obtain t where
      t: "path_normalize q = join_with ''/'' (path_segments q) @ t" ..
    from join_with_prefix[OF ne] obtain u where
      u: "join_with ''/'' (?bs @ rest) = join_with ''/'' ?bs @ u" ..
    have "path_normalize q = join_with ''/'' ?bs @ (u @ t)"
      by (simp add: t rest u)
    then have "path_normalize q = base @ (u @ t)" by (simp only: b)
    then show ?thesis ..
  qed
  then obtain z where "path_normalize q = base @ z" ..
  then show ?thesis by simp
qed

section \<open>Acceptance\<close>

lemma fixExecutable_string:
  assumes "getProp h ''gameExecutable'' = Some (JStr exe)" and "exe \<noteq> []"
  shows "fixExecutable base h =
     (if base \<noteq> take (length base) (path_normalize (path_join base exe))
      then (Some (BadPath (''bad path for game executable: '' @
                   path_normalize (path_join base exe))),
            setProp h ''gameExecutable'' (JStr (path_join base exe)))
      else (None, setProp h ''gameExecutable'' (JStr (path_join base exe))))"
  using assms by (simp add: fixExecutable_def Let_def)

lemma fixExecutable_inside:
  assumes "truthy (getProp h ''gameExecutable'') \<Longrightarrow> normalized_directory base"
    and "executable_stays_inside base h"
  shows "fst (fixExecutable base h) = None"
proof (cases "truthy (getProp h ''gameExecutable'')")
  case False
  then show ?thesis by (simp add: fixExecutable_def)
next
  case True
  show ?thesis
  proof (cases "getProp h ''gameExecutable''")
    case None
    with True show ?thesis by simp
  next
    case (Some v)
    show ?thesis
    proof (cases v)
      case (JStr exe)
      with Some True have ne: "exe \<noteq> []" by simp
      with assms(2) Some JStr
      have "lies_within base (path_normalize (path_join base exe))"
        by (simp add: executable_stays_inside_def)
      with assms(1)[OF True]
      have "take (length base) (path_normalize (path_join base exe)) = base"
        by (rule lies_within_take)
      then show ?thesis
        using Some JStr ne by (simp add: fixExecutable_string)
    qed (use assms(2) Some True in \<open>simp_all add: executable_stays_inside_def\<close>)
  qed
qed

lemma fixUrl_no_throw:
  "js_toString (getProp h ''gameId'') \<noteq> None \<Longrightarrow> js_toString (getProp h name) \<noteq> None \<Longrightarrow>
   fst (fixUrl name h) = None"
  by (auto simp: fixUrl_def split: option.splits)

lemma fixUrls_no_throw:
  assumes "js_toString (getProp h ''gameId'') \<noteq> None"
    and "js_toString (getProp h ''gameUrl'') \<noteq> None"
    and "js_toString (getProp h ''screenshotUrl'') \<noteq> None"
  shows "fst (fixUrls h) = None"
proof -
  obtain f x where fx: "fixUrl ''gameUrl'' h = (f, x)" by (cases "fixUrl ''gameUrl'' h")
  have f: "f = None" using fixUrl_no_throw[OF assms(1,2)] fx by simp
  have keep: "getProp x k = getProp h k" if "k \<noteq> ''gameUrl''" for k
    using getProp_fixUrl[OF that, of h] fx by simp
  have "fst (fixUrl ''screenshotUrl'' x) = None"
    using assms(1,3) by (intro fixUrl_no_throw) (simp_all add: keep)
  then show ?thesis by (simp add: fixUrls_def fx f)
qed

lemma valid_gameId_prints:
  "required_fields_valid m \<Longrightarrow> js_toString (getProp m ''gameId'') \<noteq> None"
  by (auto simp: required_fields_valid_def validGameId_def split: if_splits option.splits)

lemma resolveVersion_satisfied:
  assumes "getProp d ''apiVersion'' = Some (JStr a)"
    and "\<exists>k \<in> fst ` set (apiVersionSettings st). semver_satisfies k (caret_range d)"
  shows "getProp (snd (resolveVersion st d)) ''versionSettings'' \<noteq> None"
proof -
  have "semver_maxSatisfying (map fst (apiVersionSettings st)) (caret_range d) \<noteq> None"
    using assms(2) by (simp add: maxSatisfying_None)
  then obtain best where
    best: "semver_maxSatisfying (map fst (apiVersionSettings st)) (caret_range d) = Some best"
    by auto
  from maxSatisfying_Some[OF best] have "best \<in> fst ` set (apiVersionSettings st)" by simp
  then have "map_of (apiVersionSettings st) best \<noteq> None"
    by (simp add: map_of_eq_None_iff)
  then show ?thesis
    by (simp add: resolveVersion_Some[OF assms(1) best] getProp_assignVersionSettings)
qed

lemma own_key_known:
  "g \<in> fst ` set (hftGameTypeDefaults st) \<Longrightarrow> gameTypeDefaults st g \<noteq> Absent"
proof -
  assume "g \<in> fst ` set (hftGameTypeDefaults st)"
  then have "map_of (hftGameTypeDefaults st) g \<noteq> None" by (simp add: map_of_eq_None_iff)
  then show ?thesis by (auto simp: gameTypeDefaults_def)
qed

text \<open>
  C9, as amended. For every manifest whose five required fields all validate (after the
  defaults), whose \<^verbatim>\<open>gameType\<close> is a non-empty key of \<^verbatim>\<open>hftGameTypeDefaults\<close>, whose
  \<^verbatim>\<open>apiVersion\<close> is matched by some key of \<^verbatim>\<open>apiVersionSettings\<close>, whose \<^verbatim>\<open>gameUrl\<close>
  and \<^verbatim>\<open>screenshotUrl\<close> can be converted to strings, and whose \<^verbatim>\<open>gameExecutable\<close>, if
  any, is a string that stays inside the game directory, the directory component of the
  manifest file's path being written in normalized form when the manifest names an
  executable: \<^verbatim>\<open>parseGameInfo\<close> returns a result, and the \<^verbatim>\<open>basePath\<close> of the result
  is exactly the directory component of the manifest file's path.
\<close>

theorem parseGameInfo_accepts:
  fixes st :: settings and p :: "'a packageInfo_scheme"
  assumes "happyFunTimes p = Some h"
    and "required_fields_valid (defaulted st h)"
    and "getProp (defaulted st h) ''gameType'' = Some (JStr g)"
    and "g \<in> fst ` set (hftGameTypeDefaults st)"
    and "g \<noteq> []"
    and "\<exists>k \<in> fst ` set (apiVersionSettings st).
           semver_satisfies k (caret_range (defaulted st h))"
    and "js_toString (getProp (defaulted st h) ''gameUrl'') \<noteq> None"
    and "js_toString (getProp (defaulted st h) ''screenshotUrl'') \<noteq> None"
    and "truthy (getProp (defaulted st h) ''gameExecutable'') \<longrightarrow>
           normalized_directory (path_dirname fp)"
    and "executable_stays_inside (path_dirname fp) (defaulted st h)"
  shows "fst (parseGameInfo st p fp) = Returned \<and>
     (\<exists>h'. happyFunTimes (snd (parseGameInfo st p fp)) = Some h' \<and>
           getProp h' ''basePath'' = Some (JStr (path_dirname fp)))"
proof -
  let ?d = "defaulted st h"
  let ?v = "snd (resolveVersion st ?d)"
  let ?u = "fixUrls ?v"
  let ?x = "fixExecutable (path_dirname fp) (snd ?u)"
  have known: "gameTypeDefaults st g \<noteq> Absent" using assms(4) by (rule own_key_known)
  from valid_apiVersion[OF assms(2)] obtain a where a: "getProp ?d ''apiVersion'' = Some (JStr a)"
    by blast
  have vs: "getProp ?v ''versionSettings'' \<noteq> None"
    using a assms(6) by (rule resolveVersion_satisfied)
  have keep: "getProp ?v k = getProp ?d k" if "k \<noteq> ''versionSettings''" "k \<noteq> ''needNewHFT''" for k
    using that by (rule getProp_resolveVersion)
  have "js_toString (getProp ?d ''gameId'') \<noteq> None"
    using assms(2) by (rule valid_gameId_prints)
  then have u: "fst ?u = None"
    using assms(7,8) by (intro fixUrls_no_throw) (simp_all add: keep)
  have exe: "getProp (snd ?u) ''gameExecutable'' = getProp ?d ''gameExecutable''"
    by (simp add: getProp_fixUrls keep)
  then have inside: "executable_stays_inside (path_dirname fp) (snd ?u)"
    using assms(10) by (simp add: executable_stays_inside_def)
  have "normalized_directory (path_dirname fp)" if "truthy (getProp (snd ?u) ''gameExecutable'')"
    using that assms(9) by (simp add: exe)
  then have x: "fst ?x = None" using inside by (rule fixExecutable_inside)
  have "parseGameInfo st p fp =
      (Returned, p\<lparr>happyFunTimes := Some (setProp (snd ?x) ''basePath''
          (JStr (path_dirname fp)))\<rparr>)"
    using vs assms(5) u x by (simp add: parseGameInfo_known[OF assms(1,2,3) known])
  then show ?thesis by (simp add: getProp_setProp)
qed

text \<open>
  C9 as stated fails. When the table of game types has the empty string as a key, a
  manifest with the game type \<^verbatim>\<open>""\<close> meets every condition of the claim and is still
  rejected, by the test of line 269. A manifest file named by a bare \<^verbatim>\<open>package.json\<close>
  has the directory \<^verbatim>\<open>.\<close>, which no normalized path begins with: its executable
  \<^verbatim>\<open>bin/x\<close> lies within the directory and line 299 throws. A \<^verbatim>\<open>gameUrl\<close> that is an
  object with a key \<^verbatim>\<open>toString\<close> makes the concatenation of line 288 throw.
\<close>

theorem parseGameInfo_empty_gameType_counterexample:
  "required_fields_valid
     (defaulted empty_type_settings (example_manifest @ [(''gameType'', JStr [])])) \<and>
   getProp (defaulted empty_type_settings (example_manifest @ [(''gameType'', JStr [])]))
     ''gameType'' = Some (JStr []) \<and>
   map_of (hftGameTypeDefaults empty_type_settings) [] = Some [(''minPlayers'', JNum ''2'')] \<and>
   map_of (apiVersionSettings empty_type_settings) ''1.2.0'' = Some (JStr ''settings-1.2.0'') \<and>
   semver_satisfies ''1.2.0''
     (caret_range
        (defaulted empty_type_settings (example_manifest @ [(''gameType'', JStr [])]))) \<and>
   executable_stays_inside (path_dirname ''/games/foo/package.json'')
     (defaulted empty_type_settings (example_manifest @ [(''gameType'', JStr [])])) \<and>
   parseGameInfo empty_type_settings
       (example_package (example_manifest @ [(''gameType'', JStr [])]))
       ''/games/foo/package.json''
     = (Rejected,
        \<lparr>happyFunTimes = Some
          [(''gameId'', JStr ''jumpjump''),
           (''apiVersion'', JStr ''1.0.0''),
           (''category'', JStr ''game''),
           (''gameType'', JStr []),
           (''minPlayers'', JNum ''2''),
           (''versionSettings'', JStr ''settings-1.2.0'')]\<rparr>) \<and>
   path_dirname ''package.json'' = ''.'' \<and>
   lies_within ''.'' (path_normalize (path_join ''.'' ''bin/x'')) \<and>
   executable_stays_inside (path_dirname ''package.json'')
     (defaulted example_settings (example_manifest @ [(''gameExecutable'', JStr ''bin/x'')])) \<and>
   fst (parseGameInfo example_settings
          (example_package (example_manifest @ [(''gameExecutable'', JStr ''bin/x'')]))
          ''package.json'')
     = Thrown (BadPath ''bad path for game executable: bin/x'') \<and>
   required_fields_valid
     (defaulted example_settings
        (example_manifest @ [(''gameUrl'', JObj [(''toString'', JNum ''1'')])])) \<and>
   fst (parseGameInfo example_settings
          (example_package
             (example_manifest @ [(''gameUrl'', JObj [(''toString'', JNum ''1'')])]))
          ''/games/foo/package.json'')
     = Thrown TypeError"
  by code_simp

theorem parseGameInfo_accepts_witness:
  "parseGameInfo example_settings
       (example_package (example_manifest @ [(''gameExecutable'', JStr ''bin/game.exe'')]))
       ''/games/foo/package.json''
     = (Returned,
        \<lparr>happyFunTimes = Some
          [(''gameId'', JStr ''jumpjump''),
           (''apiVersion'', JStr ''1.0.0''),
           (''category'', JStr ''game''),
           (''gameExecutable'', JStr ''/games/foo/bin/game.exe''),
           (''gameType'', JStr ''html''),
           (''minPlayers'', JNum ''2''),
           (''versionSettings'', JStr ''settings-1.2.0''),
           (''basePath'', JStr ''/games/foo'')]\<rparr>) \<and>
   path_dirname ''/games/foo/package.json'' = ''/games/foo'' \<and>
   normalized_directory ''/games/foo'' \<and>
   fst (parseGameInfo example_settings (example_package example_manifest) ''package.json'')
     = Returned \<and>
   path_dirname ''package.json'' = ''.''"
proof -
  let ?m = "example_manifest @ [(''gameExecutable'', JStr ''bin/game.exe'')]"
  let ?fp = "''/games/foo/package.json''"
  have a: "happyFunTimes (example_package ?m) = Some ?m"
    by (simp add: example_package_def)
  have b: "required_fields_valid (defaulted example_settings ?m)"
    by code_simp
  have c: "getProp (defaulted example_settings ?m) ''gameType'' = Some (JStr ''html'')"
    by code_simp
  have c1: "''html'' \<in> fst ` set (hftGameTypeDefaults example_settings)"
    by (simp add: example_settings_def)
  have d: "''html'' \<noteq> []" by simp
  have e1: "semver_satisfies ''1.0.0'' (caret_range (defaulted example_settings ?m))"
    by code_simp
  have e2: "''1.0.0'' \<in> fst ` set (apiVersionSettings example_settings)"
    by (simp add: example_settings_def)
  have e: "\<exists>k \<in> fst ` set (apiVersionSettings example_settings).
      semver_satisfies k (caret_range (defaulted example_settings ?m))"
    using e1 e2 by blast
  have u1: "js_toString (getProp (defaulted example_settings ?m) ''gameUrl'') \<noteq> None"
    by code_simp
  have u2: "js_toString (getProp (defaulted example_settings ?m) ''screenshotUrl'') \<noteq> None"
    by code_simp
  have n0: "normalized_directory ''/games/foo''"
    by code_simp
  have n: "truthy (getProp (defaulted example_settings ?m) ''gameExecutable'') \<longrightarrow>
      normalized_directory (path_dirname ?fp)"
    by code_simp
  have f: "executable_stays_inside (path_dirname ?fp) (defaulted example_settings ?m)"
    by code_simp
  have g: "path_dirname ?fp = ''/games/foo''"
    by code_simp
  have s: "snd (parseGameInfo example_settings (example_package ?m) ?fp) =
        \<lparr>happyFunTimes = Some
          [(''gameId'', JStr ''jumpjump''),
           (''apiVersion'', JStr ''1.0.0''),
           (''category'', JStr ''game''),
           (''gameExecutable'', JStr ''/games/foo/bin/game.exe''),
           (''gameType'', JStr ''html''),
           (''minPlayers'', JNum ''2''),
           (''versionSettings'', JStr ''settings-1.2.0''),
           (''basePath'', JStr ''/games/foo'')]\<rparr>"
    by code_simp
  from parseGameInfo_accepts[OF a b c c1 d e u1 u2 n f]
  have "fst (parseGameInfo example_settings (example_package ?m) ?fp) = Returned"
    by blast
  then have r1: "parseGameInfo example_settings (example_package ?m) ?fp =
      (Returned, snd (parseGameInfo example_settings (example_package ?m) ?fp))"
    by (metis prod.collapse)
  let ?m' = "example_manifest"
  let ?fp' = "''package.json''"
  have a': "happyFunTimes (example_package ?m') = Some ?m'"
    by (simp add: example_package_def)
  have b': "required_fields_valid (defaulted example_settings ?m')"
    by code_simp
  have c': "getProp (defaulted example_settings ?m') ''gameType'' = Some (JStr ''html'')"
    by code_simp
  have e1': "semver_satisfies ''1.0.0'' (caret_range (defaulted example_settings ?m'))"
    by code_simp
  have e': "\<exists>k \<in> fst ` set (apiVersionSettings example_settings).
      semver_satisfies k (caret_range (defaulted example_settings ?m'))"
    using e1' e2 by blast
  have u1': "js_toString (getProp (defaulted example_settings ?m') ''gameUrl'') \<noteq> None"
    by code_simp
  have u2': "js_toString (getProp (defaulted example_settings ?m') ''screenshotUrl'') \<noteq> None"
    by code_simp
  have n': "truthy (getProp (defaulted example_settings ?m') ''gameExecutable'') \<longrightarrow>
      normalized_directory (path_dirname ?fp')"
    by code_simp
  have f': "executable_stays_inside (path_dirname ?fp') (defaulted example_settings ?m')"
    by code_simp
  have g': "path_dirname ?fp' = ''.''"
    by code_simp
  from parseGameInfo_accepts[OF a' b' c' c1 d e' u1' u2' n' f']
  have r2: "fst (parseGameInfo example_settings (example_package ?m') ?fp') = Returned"
    by blast
  show ?thesis
    by (intro conjI r1[unfolded s] g n0 r2 g')
qed

section \<open>Soft rejections\<close>

text \<open>
  C7. The claim: a \<^verbatim>\<open>gameType\<close> that is not a key of \<^verbatim>\<open>hftGameTypeDefaults\<close>, and a
  required field that fails its validator, make \<^verbatim>\<open>parseGameInfo\<close> skip the manifest
  and never throw. The code tests the game type at line 236 by indexing the table, which
  also finds what the table inherits: the manifest below has the game type
  \<^verbatim>\<open>constructor\<close>, which is not a key of the table, all its required fields validate,
  and \<^verbatim>\<open>parseGameInfo\<close> returns it. A manifest whose \<^verbatim>\<open>gameType\<close> is an object with
  a key \<^verbatim>\<open>toString\<close> has a required field that fails its validator, and line 226
  throws a \<^verbatim>\<open>TypeError\<close> before the validation is reached.
\<close>

theorem parseGameInfo_inherited_gameType:
  "required_fields_valid
     (defaulted example_settings
        (example_manifest @
           [(''gameType'', JStr ''constructor''), (''minPlayers'', JNum ''2'')])) \<and>
   map_of (hftGameTypeDefaults example_settings) ''constructor'' = None \<and>
   gameTypeDefaults example_settings ''constructor'' = Inherited \<and>
   parseGameInfo example_settings
       (example_package
          (example_manifest @
             [(''gameType'', JStr ''constructor''), (''minPlayers'', JNum ''2'')]))
       ''/games/foo/package.json''
     = (Returned,
        \<lparr>happyFunTimes = Some
          [(''gameId'', JStr ''jumpjump''),
           (''apiVersion'', JStr ''1.0.0''),
           (''category'', JStr ''game''),
           (''gameType'', JStr ''constructor''),
           (''minPlayers'', JNum ''2''),
           (''versionSettings'', JStr ''settings-1.2.0''),
           (''basePath'', JStr ''/games/foo'')]\<rparr>) \<and>
   validString (Some (JObj [(''toString'', JNum ''1'')])) = Inl ''not a string'' \<and>
   parseGameInfo example_settings
       (example_package
          (example_manifest @
             [(''gameType'', JObj [(''toString'', JNum ''1'')]),
              (''minPlayers'', JNum ''2'')]))
       ''/games/foo/package.json''
     = (Thrown TypeError,
        \<lparr>happyFunTimes = Some
          [(''gameId'', JStr ''jumpjump''),
           (''apiVersion'', JStr ''1.0.0''),
           (''category'', JStr ''game''),
           (''gameType'', JObj [(''toString'', JNum ''1'')]),
           (''minPlayers'', JNum ''2'')]\<rparr>)"
  by code_simp

section \<open>The state left by a rejection\<close>



section \<open>The containment check of the executable\<close>

text \<open>
  C6. The containment check compares the start of the normalized path with the base
  directory as raw strings, with no separator boundary: for a non-empty executable path
  the check passes exactly when the first \<^verbatim>\<open>gameBasePath.length\<close> characters of the
  normalized path are the base directory. With the base directory \<^verbatim>\<open>/games/foo\<close> and
  the executable \<^verbatim>\<open>../foobar/x.exe\<close> the path normalizes to \<^verbatim>\<open>/games/foobar/x.exe\<close>,
  which lies outside the directory; the check passes and nothing is thrown.
\<close>

theorem fixExecutable_prefix_check:
  "(getProp h ''gameExecutable'' = Some (JStr exe) \<and> exe \<noteq> [] \<longrightarrow>
      (fst (fixExecutable base h) = None \<longleftrightarrow>
       take (length base) (path_normalize (path_join base exe)) = base)) \<and>
   path_dirname ''/games/foo/package.json'' = ''/games/foo'' \<and>
   path_normalize (path_join ''/games/foo'' ''../foobar/x.exe'') = ''/games/foobar/x.exe'' \<and>
   \<not> lies_within ''/games/foo'' ''/games/foobar/x.exe'' \<and>
   parseGameInfo example_settings
       (example_package (example_manifest @ [(''gameExecutable'', JStr ''../foobar/x.exe'')]))
       ''/games/foo/package.json''
     = (Returned,
        \<lparr>happyFunTimes = Some
          [(''gameId'', JStr ''jumpjump''),
           (''apiVersion'', JStr ''1.0.0''),
           (''category'', JStr ''game''),
           (''gameExecutable'', JStr ''/games/foobar/x.exe''),
           (''gameType'', JStr ''html''),
           (''minPlayers'', JNum ''2''),
           (''versionSettings'', JStr ''settings-1.2.0''),
           (''basePath'', JStr ''/games/foo'')]\<rparr>)"
proof (intro conjI impI)
  assume "getProp h ''gameExecutable'' = Some (JStr exe) \<and> exe \<noteq> []"
  then have "fixExecutable base h =
     (if base \<noteq> take (length base) (path_normalize (path_join base exe))
      then (Some (BadPath (''bad path for game executable: '' @
                   path_normalize (path_join base exe))),
            setProp h ''gameExecutable'' (JStr (path_join base exe)))
      else (None, setProp h ''gameExecutable'' (JStr (path_join base exe))))"
    by (simp add: fixExecutable_string)
  then show "fst (fixExecutable base h) = None \<longleftrightarrow>
       take (length base) (path_normalize (path_join base exe)) = base"
    by auto
next
  show "path_dirname ''/games/foo/package.json'' = ''/games/foo''" by code_simp
next
  show "path_normalize (path_join ''/games/foo'' ''../foobar/x.exe'') = ''/games/foobar/x.exe''"
    by code_simp
next
  show "\<not> lies_within ''/games/foo'' ''/games/foobar/x.exe''"
    by code_simp
next
  show "parseGameInfo example_settings
       (example_package (example_manifest @ [(''gameExecutable'', JStr ''../foobar/x.exe'')]))
       ''/games/foo/package.json''
     = (Returned,
        \<lparr>happyFunTimes = Some
          [(''gameId'', JStr ''jumpjump''),
           (''apiVersion'', JStr ''1.0.0''),
           (''category'', JStr ''game''),
           (''gameExecutable'', JStr ''/games/foobar/x.exe''),
           (''gameType'', JStr ''html''),
           (''minPlayers'', JNum ''2''),
           (''versionSettings'', JStr ''settings-1.2.0''),
           (''basePath'', JStr ''/games/foo'')]\<rparr>)"
    by code_simp
qed

theorem fixExecutable_prefix_check_witness:
  "fst (fixExecutable ''/games/foo'' [(''gameExecutable'', JStr ''../foobar/x.exe'')]) = None \<and>
   take (length ''/games/foo'')
     (path_normalize (path_join ''/games/foo'' ''../foobar/x.exe'')) = ''/games/foo'' \<and>
   \<not> lies_within ''/games/foo'' ''/games/foobar/x.exe''"
proof -
  let ?h = "[(''gameExecutable'', JStr ''../foobar/x.exe'')]"
  have a: "getProp ?h ''gameExecutable'' = Some (JStr ''../foobar/x.exe'') \<and>
      ''../foobar/x.exe'' \<noteq> []"
    by (simp add: getProp_def)
  have b: "take (length ''/games/foo'')
     (path_normalize (path_join ''/games/foo'' ''../foobar/x.exe'')) = ''/games/foo''"
    by code_simp
  note t = fixExecutable_prefix_check[of ?h "''../foobar/x.exe''" "''/games/foo''"]
  have c: "fst (fixExecutable ''/games/foo'' ?h) = None"
    using t[THEN conjunct1, THEN mp, OF a] b by (rule iffD2)
  have d: "\<not> lies_within ''/games/foo'' ''/games/foobar/x.exe''"
    by (rule t[THEN conjunct2, THEN conjunct2, THEN conjunct2, THEN conjunct1])
  show ?thesis by (intro conjI c b d)
qed

text \<open>
  C5. The claim: when the resolved path of \<^verbatim>\<open>gameExecutable\<close> does not lie within the
  directory of the manifest file, \<^verbatim>\<open>parseGameInfo\<close> throws. The code does so for the
  directory \<^verbatim>\<open>/games/foo\<close> and the executable \<^verbatim>\<open>../bar.exe\<close>. For the executable
  \<^verbatim>\<open>../foo2/run.exe\<close> the resolved path \<^verbatim>\<open>/games/foo2/run.exe\<close> is outside the
  directory, and the code returns the manifest without throwing.
\<close>

theorem parseGameInfo_executable_escape:
  "parseGameInfo example_settings
       (example_package (example_manifest @ [(''gameExecutable'', JStr ''../bar.exe'')]))
       ''/games/foo/package.json''
     = (Thrown (BadPath ''bad path for game executable: /games/bar.exe''),
        \<lparr>happyFunTimes = Some
          [(''gameId'', JStr ''jumpjump''),
           (''apiVersion'', JStr ''1.0.0''),
           (''category'', JStr ''game''),
           (''gameExecutable'', JStr ''/games/bar.exe''),
           (''gameType'', JStr ''html''),
           (''minPlayers'', JNum ''2''),
           (''versionSettings'', JStr ''settings-1.2.0'')]\<rparr>) \<and>
   path_normalize (path_join ''/games/foo'' ''../foo2/run.exe'') = ''/games/foo2/run.exe'' \<and>
   \<not> lies_within ''/games/foo'' ''/games/foo2/run.exe'' \<and>
   parseGameInfo example_settings
       (example_package (example_manifest @ [(''gameExecutable'', JStr ''../foo2/run.exe'')]))
       ''/games/foo/package.json''
     = (Returned,
        \<lparr>happyFunTimes = Some
          [(''gameId'', JStr ''jumpjump''),
           (''apiVersion'', JStr ''1.0.0''),
           (''category'', JStr ''game''),
           (''gameExecutable'', JStr ''/games/foo2/run.exe''),
           (''gameType'', JStr ''html''),
           (''minPlayers'', JNum ''2''),
           (''versionSettings'', JStr ''settings-1.2.0''),
           (''basePath'', JStr ''/games/foo'')]\<rparr>)"
  by code_simp

end
